theory Spec2Isabelle
  imports Complex_Main "HOL-Library.Monad_Syntax"
begin

section \<open>The geometry facade of grid.hpp\<close>

text \<open>
  The development embeds \<^verbatim>\<open>class Grid\<close> and \<^verbatim>\<open>init_grids\<close> of \<^verbatim>\<open>grid.hpp\<close>.
  \<^verbatim>\<open>Real\<close> and \<^verbatim>\<open>GReal\<close> are floating-point types in the source; here they are the exact
  reals, so rounding is outside the model and every equation below is an equation of
  exact arithmetic.
\<close>

type_synonym Real = real
type_synonym GReal = real

subsection \<open>Declarations that grid.hpp takes from decs.hpp\<close>

text \<open>
  Modelled from the spec: the enumeration \<^verbatim>\<open>Loci\<close> is declared in decs.hpp, which is not
  part of the examined source. The spec gives it five variants; the enumerators are named
  as \<^verbatim>\<open>Grid::coord\<close> names them, in the order of its \<^verbatim>\<open>switch\<close>.
\<close>

datatype Loci = face1 | face2 | face3 | center | corner

text \<open>
  Modelled from the spec: \<^verbatim>\<open>NDIM\<close> (vectors have 4 components, tensors are 4x4 and 4x4x4)
  and \<^verbatim>\<open>NLOC\<close> (5 Locations) are constants of decs.hpp. The loop
  \<^verbatim>\<open>for (int loc = 0; loc < NLOC; ++loc)\<close> with the cast \<^verbatim>\<open>(Loci)loc\<close> visits every
  enumerator once; \<open>all_Loci\<close> is that sequence.
\<close>

definition NDIM :: nat where
  "NDIM = 4"

definition all_Loci :: "Loci list" where
  "all_Loci = [face1, face2, face3, center, corner]"

text \<open>
  Failure is a value: \<open>None\<close> stands for a run with no defined result (a read or write
  outside a view, a dereference of a pointer that was never set).
\<close>

fun foldM :: "('a \<Rightarrow> 's \<Rightarrow> 's option) \<Rightarrow> 'a list \<Rightarrow> 's \<Rightarrow> 's option" where
  "foldM body [] s = Some s"
| "foldM body (x # xs) s = (case body x s of None \<Rightarrow> None | Some s' \<Rightarrow> foldM body xs s')"

text \<open>
  Modelled from the spec: the loop macros of decs.hpp. \<^verbatim>\<open>DLOOP1\<close> runs \<^verbatim>\<open>mu\<close> over
  \<^verbatim>\<open>0..NDIM-1\<close>, \<^verbatim>\<open>DLOOP2\<close> nests \<^verbatim>\<open>nu\<close> inside it and \<^verbatim>\<open>DLOOP3\<close> nests \<^verbatim>\<open>lam\<close> inside
  that (the index names are the ones the loop bodies of grid.hpp use).
\<close>

definition DLOOP1 :: "(nat \<Rightarrow> 's \<Rightarrow> 's option) \<Rightarrow> 's \<Rightarrow> 's option" where
  "DLOOP1 body = foldM body [0..<NDIM]"

definition DLOOP2 :: "(nat \<Rightarrow> nat \<Rightarrow> 's \<Rightarrow> 's option) \<Rightarrow> 's \<Rightarrow> 's option" where
  "DLOOP2 body = DLOOP1 (\<lambda>mu. DLOOP1 (\<lambda>nu. body mu nu))"

definition DLOOP3 :: "(nat \<Rightarrow> nat \<Rightarrow> nat \<Rightarrow> 's \<Rightarrow> 's option) \<Rightarrow> 's \<Rightarrow> 's option" where
  "DLOOP3 body = DLOOP2 (\<lambda>mu nu. DLOOP1 (\<lambda>lam. body mu nu lam))"

text \<open>
  Fixed-size local arrays (\<^verbatim>\<open>Real v[NDIM]\<close>, \<^verbatim>\<open>Real g[NDIM][NDIM]\<close>,
  \<^verbatim>\<open>Real c[NDIM][NDIM][NDIM]\<close>) are lists, lists of rows and lists of planes. Their size
  is fixed by the C++ type, so the theorems assume the shape and the element
  assignments are plain list updates.
\<close>

definition set2 :: "'a list list \<Rightarrow> nat \<Rightarrow> nat \<Rightarrow> 'a \<Rightarrow> 'a list list" where
  "set2 g mu nu x = g[mu := (g ! mu)[nu := x]]"

definition set3 :: "'a list list list \<Rightarrow> nat \<Rightarrow> nat \<Rightarrow> nat \<Rightarrow> 'a \<Rightarrow> 'a list list list" where
  "set3 c mu nu lam x = c[mu := set2 (c ! mu) nu lam x]"

definition shape1 :: "'a list \<Rightarrow> bool" where
  "shape1 v = (length v = NDIM)"

definition shape2 :: "'a list list \<Rightarrow> bool" where
  "shape2 g = (length g = NDIM \<and> list_all shape1 g)"

definition shape3 :: "'a list list list \<Rightarrow> bool" where
  "shape3 c = (length c = NDIM \<and> list_all shape2 c)"

text \<open>
  Views with run-time extents (\<^verbatim>\<open>ParArrayND\<close> and the \<^verbatim>\<open>Geom*\<close> views of decs.hpp) are
  partial maps from indices to values, defined exactly on the allocated index range.
  An access is checked: outside the range it has no defined result. The first index of
  \<^verbatim>\<open>GeomTensor\<close> and \<^verbatim>\<open>GeomScalar\<close> is the Location; the model indexes by the enumerator
  itself.
\<close>

type_synonym ParArrayND = "int \<rightharpoonup> Real"
type_synonym GeomTensor = "Loci \<times> int \<times> int \<times> int \<times> int \<rightharpoonup> Real"
type_synonym GeomScalar = "Loci \<times> int \<times> int \<rightharpoonup> Real"
type_synonym GeomConn = "int \<times> int \<times> int \<times> int \<times> int \<rightharpoonup> Real"

definition view_write :: "('k \<rightharpoonup> Real) \<Rightarrow> 'k \<Rightarrow> Real \<Rightarrow> ('k \<rightharpoonup> Real) option" where
  "view_write v idx x = (case v idx of None \<Rightarrow> None | Some _ \<Rightarrow> Some (v(idx \<mapsto> x)))"

definition in_dim :: "int \<Rightarrow> bool" where
  "in_dim mu = (0 \<le> mu \<and> mu < int NDIM)"

definition in_ext :: "int \<Rightarrow> int \<Rightarrow> bool" where
  "in_ext n i = (0 \<le> i \<and> i < n)"

definition new_GeomTensor :: "int \<Rightarrow> int \<Rightarrow> GeomTensor" where
  "new_GeomTensor n1 n2 =
     (\<lambda>(loc, i, j, mu, nu).
        if in_ext n1 i \<and> in_ext n2 j \<and> in_dim mu \<and> in_dim nu then Some 0 else None)"

definition new_GeomScalar :: "int \<Rightarrow> int \<Rightarrow> GeomScalar" where
  "new_GeomScalar n1 n2 =
     (\<lambda>(loc, i, j). if in_ext n1 i \<and> in_ext n2 j then Some 0 else None)"

definition new_GeomConn :: "int \<Rightarrow> int \<Rightarrow> GeomConn" where
  "new_GeomConn n1 n2 =
     (\<lambda>(i, j, mu, nu, lam).
        if in_ext n1 i \<and> in_ext n2 j \<and> in_dim mu \<and> in_dim nu \<and> in_dim lam
        then Some 0 else None)"

subsection \<open>The collaborators\<close>

text \<open>
  Modelled from the spec: \<^verbatim>\<open>CoordinateEmbedding\<close> is declared in
  coordinate_embedding.hpp, which is not part of the examined source. It is a parameter
  of the model: four functions with the contract of the spec. \<^verbatim>\<open>gcon_native\<close> returns
  the determinant-derived scalar together with the contravariant matrix it writes.
\<close>

record CoordinateEmbedding =
  coord_to_embed :: "GReal list \<Rightarrow> GReal list"
  gcov_native :: "GReal list \<Rightarrow> Real list list"
  gcon_native :: "Real list list \<Rightarrow> Real \<times> Real list list"
  conn_func :: "GReal list \<Rightarrow> Real list list list"

text \<open>
  Modelled from the spec: the mesh block owns six coordinate arrays, which the
  constructors read as \<^verbatim>\<open>pmb->pcoord->x1f\<close> and so on.
\<close>

record MeshBlock =
  pcoord_x1f :: ParArrayND
  pcoord_x2f :: ParArrayND
  pcoord_x3f :: ParArrayND
  pcoord_x1v :: ParArrayND
  pcoord_x2v :: ParArrayND
  pcoord_x3v :: ParArrayND

subsection \<open>Build configuration\<close>

text \<open>
  The two preprocessor flags. The source as it stands sets \<^verbatim>\<open>FAST_CARTESIAN 1\<close> and
  \<^verbatim>\<open>NO_CACHE 0\<close>. Every \<^verbatim>\<open>#if FAST_CARTESIAN ... #elif NO_CACHE ... #else\<close> of the source
  is an \<open>if\<close> on these flags below.
\<close>

record Build =
  FAST_CARTESIAN :: bool
  NO_CACHE :: bool

definition flat_build :: Build where
  "flat_build = \<lparr>FAST_CARTESIAN = True, NO_CACHE = False\<rparr>"

definition direct_build :: Build where
  "direct_build = \<lparr>FAST_CARTESIAN = False, NO_CACHE = True\<rparr>"

definition cached_build :: Build where
  "cached_build = \<lparr>FAST_CARTESIAN = False, NO_CACHE = False\<rparr>"

subsection \<open>The class\<close>

text \<open>
  \<open>coords\<close> is a pointer: \<open>None\<close> is the pointer no constructor has set. The four cache
  members are declared only when both flags are off; the record carries them in every
  build, and a view that was never allocated is the empty map.
\<close>

record Grid =
  coords :: "CoordinateEmbedding option"
  x1f :: ParArrayND
  x2f :: ParArrayND
  x3f :: ParArrayND
  x1v :: ParArrayND
  x2v :: ParArrayND
  x3v :: ParArrayND
  gcon_direct :: GeomTensor
  gcov_direct :: GeomTensor
  gdet_direct :: GeomScalar
  conn_direct :: GeomConn

definition flat_metric :: "int \<Rightarrow> int \<Rightarrow> Real" where
  "flat_metric mu nu = real_of_int (- 2 * of_bool (mu = 0 \<and> nu = 0) + of_bool (mu = nu))"

text \<open>
  The scalar accessors, lines 65-73 (flat), 84-91 (direct) and 95-102 (cached). The
  direct branch has the same bodies as the cached one, \<^verbatim>\<open>return gcon_direct(loc, i, j, mu, nu)\<close>
  and so on; the only declarations of these names in the file are the cache views, so
  the model reads the view of that name in both branches.
\<close>

definition gcon :: "Build \<Rightarrow> Grid \<Rightarrow> Loci \<Rightarrow> int \<Rightarrow> int \<Rightarrow> int \<Rightarrow> int \<Rightarrow> Real option" where
  "gcon b G loc i j mu nu =
     (if FAST_CARTESIAN b then Some (flat_metric mu nu)
      else if NO_CACHE b then gcon_direct G (loc, i, j, mu, nu)
      else gcon_direct G (loc, i, j, mu, nu))"

definition gcov :: "Build \<Rightarrow> Grid \<Rightarrow> Loci \<Rightarrow> int \<Rightarrow> int \<Rightarrow> int \<Rightarrow> int \<Rightarrow> Real option" where
  "gcov b G loc i j mu nu =
     (if FAST_CARTESIAN b then Some (flat_metric mu nu)
      else if NO_CACHE b then gcov_direct G (loc, i, j, mu, nu)
      else gcov_direct G (loc, i, j, mu, nu))"

definition gdet :: "Build \<Rightarrow> Grid \<Rightarrow> Loci \<Rightarrow> int \<Rightarrow> int \<Rightarrow> Real option" where
  "gdet b G loc i j =
     (if FAST_CARTESIAN b then Some 1
      else if NO_CACHE b then gdet_direct G (loc, i, j)
      else gdet_direct G (loc, i, j))"

definition conn :: "Build \<Rightarrow> Grid \<Rightarrow> int \<Rightarrow> int \<Rightarrow> int \<Rightarrow> int \<Rightarrow> int \<Rightarrow> Real option" where
  "conn b G i j mu nu lam =
     (if FAST_CARTESIAN b then Some 0
      else if NO_CACHE b then conn_direct G (i, j, mu, nu, lam)
      else conn_direct G (i, j, mu, nu, lam))"

text \<open>
  The full-matrix overloads, lines 75-80 (flat) and 104-109 (cached). They write into
  the caller's array, which is the last argument here. The direct build declares no
  such overload.
\<close>

definition gcon_full ::
  "Build \<Rightarrow> Grid \<Rightarrow> Loci \<Rightarrow> int \<Rightarrow> int \<Rightarrow> Real list list \<Rightarrow> Real list list option" where
  "gcon_full b G loc i j g =
     (if FAST_CARTESIAN b then
        DLOOP2 (\<lambda>mu nu g. Some (set2 g mu nu (flat_metric (int mu) (int nu)))) g
      else if NO_CACHE b then None
      else DLOOP2 (\<lambda>mu nu g. do {
             x \<leftarrow> gcon_direct G (loc, i, j, int mu, int nu);
             Some (set2 g mu nu x) }) g)"

definition gcov_full ::
  "Build \<Rightarrow> Grid \<Rightarrow> Loci \<Rightarrow> int \<Rightarrow> int \<Rightarrow> Real list list \<Rightarrow> Real list list option" where
  "gcov_full b G loc i j g =
     (if FAST_CARTESIAN b then
        DLOOP2 (\<lambda>mu nu g. Some (set2 g mu nu (flat_metric (int mu) (int nu)))) g
      else if NO_CACHE b then None
      else DLOOP2 (\<lambda>mu nu g. do {
             x \<leftarrow> gcov_direct G (loc, i, j, int mu, int nu);
             Some (set2 g mu nu x) }) g)"

definition conn_full ::
  "Build \<Rightarrow> Grid \<Rightarrow> int \<Rightarrow> int \<Rightarrow> Real list list list \<Rightarrow> Real list list list option" where
  "conn_full b G i j c =
     (if FAST_CARTESIAN b then
        DLOOP3 (\<lambda>mu nu lam c. Some (set3 c mu nu lam 0)) c
      else if NO_CACHE b then None
      else DLOOP3 (\<lambda>mu nu lam c. do {
             x \<leftarrow> conn_direct G (i, j, int mu, int nu, int lam);
             Some (set3 c mu nu lam x) }) c)"

text \<open>\<^verbatim>\<open>Grid::coord\<close>, lines 155-186. \<open>X\<close> is the caller's array.\<close>

definition coord ::
  "Grid \<Rightarrow> int \<Rightarrow> int \<Rightarrow> int \<Rightarrow> Loci \<Rightarrow> GReal list \<Rightarrow> GReal list option" where
  "coord G i j k loc X0 =
     (let X = X0[0 := 0] in
      case loc of
        face1 \<Rightarrow> do {
          a \<leftarrow> x1f G i; let X = X[1 := a];
          b \<leftarrow> x2v G j; let X = X[2 := b];
          c \<leftarrow> x3v G k; let X = X[3 := c];
          Some X }
      | face2 \<Rightarrow> do {
          a \<leftarrow> x1v G i; let X = X[1 := a];
          b \<leftarrow> x2f G j; let X = X[2 := b];
          c \<leftarrow> x3v G k; let X = X[3 := c];
          Some X }
      | face3 \<Rightarrow> do {
          a \<leftarrow> x1v G i; let X = X[1 := a];
          b \<leftarrow> x2v G j; let X = X[2 := b];
          c \<leftarrow> x3f G k; let X = X[3 := c];
          Some X }
      | center \<Rightarrow> do {
          a \<leftarrow> x1v G i; let X = X[1 := a];
          b \<leftarrow> x2v G j; let X = X[2 := b];
          c \<leftarrow> x3v G k; let X = X[3 := c];
          Some X }
      | corner \<Rightarrow> do {
          a \<leftarrow> x1f G i; let X = X[1 := a];
          b \<leftarrow> x2f G j; let X = X[2 := b];
          c \<leftarrow> x3f G k; let X = X[3 := c];
          Some X })"

text \<open>
  \<^verbatim>\<open>Grid::coord_embed\<close>, lines 114-119. The local \<^verbatim>\<open>Xnative\<close> is uninitialised when
  \<^verbatim>\<open>coord\<close> receives it; \<open>Xnative0\<close> is its content then. \<^verbatim>\<open>coords->coord_to_embed\<close>
  dereferences \<open>coords\<close>.
\<close>

definition coord_embed ::
  "Grid \<Rightarrow> int \<Rightarrow> int \<Rightarrow> int \<Rightarrow> Loci \<Rightarrow> GReal list \<Rightarrow> GReal list option" where
  "coord_embed G i j k loc Xnative0 = do {
     Xnative \<leftarrow> coord G i j k loc Xnative0;
     cs \<leftarrow> coords G;
     Some (coord_to_embed cs Xnative) }"

text \<open>\<^verbatim>\<open>Grid::lower\<close> and \<^verbatim>\<open>Grid::raise\<close>, lines 204-215. The last list is the output array
  as the caller passes it.\<close>

definition lower ::
  "Build \<Rightarrow> Grid \<Rightarrow> Real list \<Rightarrow> Real list \<Rightarrow> int \<Rightarrow> int \<Rightarrow> int \<Rightarrow> Loci \<Rightarrow> Real list option" where
  "lower b G vcon vcov0 i j k loc = do {
     vcov \<leftarrow> DLOOP1 (\<lambda>mu vcov. Some (vcov[mu := 0])) vcov0;
     DLOOP2 (\<lambda>mu nu vcov. do {
       g \<leftarrow> gcov b G loc i j (int mu) (int nu);
       Some (vcov[mu := vcov ! mu + g * vcon ! nu]) }) vcov }"

definition raise ::
  "Build \<Rightarrow> Grid \<Rightarrow> Real list \<Rightarrow> Real list \<Rightarrow> int \<Rightarrow> int \<Rightarrow> int \<Rightarrow> Loci \<Rightarrow> Real list option" where
  "raise b G vcov vcon0 i j k loc = do {
     vcon \<leftarrow> DLOOP1 (\<lambda>mu vcon. Some (vcon[mu := 0])) vcon0;
     DLOOP2 (\<lambda>mu nu vcon. do {
       g \<leftarrow> gcon b G loc i j (int mu) (int nu);
       Some (vcon[mu := vcon ! mu + g * vcov ! nu]) }) vcon }"

subsection \<open>Construction and the cache initialiser\<close>

text \<open>
  A \<^verbatim>\<open>Kokkos::parallel_for\<close> over \<^verbatim>\<open>MDRangePolicy<Rank<2>>({0, 0}, {n1, n2})\<close> runs its
  body once for every pair \<open>(i, j)\<close> with \<open>0 \<le> i < n1\<close> and \<open>0 \<le> j < n2\<close>. The model runs
  the pairs one after the other; the bodies of \<^verbatim>\<open>init_grids\<close> write disjoint cells.
\<close>

definition MDRange :: "int \<Rightarrow> int \<Rightarrow> (int \<times> int) list" where
  "MDRange n1 n2 = List.product (map int [0..<nat n1]) (map int [0..<nat n2])"

definition parallel_for :: "(int \<times> int) list \<Rightarrow> (int \<Rightarrow> int \<Rightarrow> 's \<Rightarrow> 's option) \<Rightarrow> 's \<Rightarrow> 's option" where
  "parallel_for policy body = foldM (\<lambda>(i, j). body i j) policy"

text \<open>
  The kernel \<^verbatim>\<open>init_geom\<close>, lines 243-255. The views \<^verbatim>\<open>gcon_local\<close>, \<^verbatim>\<open>gcov_local\<close> and
  \<^verbatim>\<open>gdet_local\<close> are handles on the storage of the members of \<open>G\<close>, so a write through
  them is a write to the member. \<open>X\<close> is the kernel's local array; it is carried from
  one Location to the next as the source does.
\<close>

definition init_geom_loc ::
  "CoordinateEmbedding \<Rightarrow> int \<Rightarrow> int \<Rightarrow> Loci \<Rightarrow> GReal list \<times> Grid \<Rightarrow> (GReal list \<times> Grid) option" where
  "init_geom_loc cs i j loc XG = (case XG of (X0, G) \<Rightarrow> do {
     X \<leftarrow> coord G i j 0 loc X0;
     let gcov_loc = gcov_native cs X;
     let (det, gcon_loc) = gcon_native cs gcov_loc;
     gd \<leftarrow> view_write (gdet_direct G) (loc, i, j) det;
     let G = G\<lparr>gdet_direct := gd\<rparr>;
     G \<leftarrow> DLOOP2 (\<lambda>mu nu G. do {
            gc \<leftarrow> view_write (gcov_direct G) (loc, i, j, int mu, int nu) (gcov_loc ! mu ! nu);
            let G = G\<lparr>gcov_direct := gc\<rparr>;
            gn \<leftarrow> view_write (gcon_direct G) (loc, i, j, int mu, int nu) (gcon_loc ! mu ! nu);
            Some (G\<lparr>gcon_direct := gn\<rparr>) }) G;
     Some (X, G) })"

definition init_geom :: "CoordinateEmbedding \<Rightarrow> GReal list \<Rightarrow> int \<Rightarrow> int \<Rightarrow> Grid \<Rightarrow> Grid option" where
  "init_geom cs X0 i j G = map_option snd (foldM (init_geom_loc cs i j) all_Loci (X0, G))"

text \<open>The kernel \<^verbatim>\<open>init_conn\<close>, lines 258-265.\<close>

definition init_conn :: "CoordinateEmbedding \<Rightarrow> GReal list \<Rightarrow> int \<Rightarrow> int \<Rightarrow> Grid \<Rightarrow> Grid option" where
  "init_conn cs X0 i j G = do {
     X \<leftarrow> coord G i j 0 center X0;
     let conn_loc = conn_func cs X;
     DLOOP2 (\<lambda>mu nu. foldM (\<lambda>kap G. do {
         c \<leftarrow> view_write (conn_direct G) (i, j, int mu, int nu, int kap) (conn_loc ! mu ! nu ! kap);
         Some (G\<lparr>conn_direct := c\<rparr>) }) [0..<NDIM]) G }"

text \<open>
  \<^verbatim>\<open>init_grids\<close>, lines 223-270. \<^verbatim>\<open>G.gn1\<close> and \<^verbatim>\<open>G.gn2\<close> are read by the source but are
  not members of the class as this file declares it; they are the parameters \<open>gn1\<close> and
  \<open>gn2\<close>. \<open>X0\<close> is the content of the uninitialised local \<^verbatim>\<open>X\<close> of the kernels.
  \<^verbatim>\<open>CoordinateEmbedding cs = *(G.coords)\<close> dereferences \<open>coords\<close>.
\<close>

definition init_grids :: "Build \<Rightarrow> int \<Rightarrow> int \<Rightarrow> GReal list \<Rightarrow> Grid \<Rightarrow> Grid option" where
  "init_grids b gn1 gn2 X0 G0 =
     (if FAST_CARTESIAN b \<or> NO_CACHE b then Some G0
      else do {
        let G = G0\<lparr>gcon_direct := new_GeomTensor gn1 gn2\<rparr>;
        let G = G\<lparr>gcov_direct := new_GeomTensor gn1 gn2\<rparr>;
        let G = G\<lparr>gdet_direct := new_GeomScalar gn1 gn2\<rparr>;
        let G = G\<lparr>conn_direct := new_GeomConn gn1 gn2\<rparr>;
        cs \<leftarrow> coords G;
        G \<leftarrow> parallel_for (MDRange gn1 gn2) (init_geom cs X0) G;
        parallel_for (MDRange gn1 gn2) (init_conn cs X0) G })"

text \<open>
  The general constructor, lines 136-150, and the constructor of the flat build, lines
  188-202, which has no initialiser for \<open>coords\<close>. Members without an initialiser are
  default-constructed: the views are unallocated.
\<close>

definition Grid_general ::
  "Build \<Rightarrow> int \<Rightarrow> int \<Rightarrow> GReal list \<Rightarrow> CoordinateEmbedding \<Rightarrow> MeshBlock \<Rightarrow> Grid option" where
  "Grid_general b gn1 gn2 X0 coordinates pmb =
     init_grids b gn1 gn2 X0
       \<lparr>coords = Some coordinates,
        x1f = pcoord_x1f pmb, x2f = pcoord_x2f pmb, x3f = pcoord_x3f pmb,
        x1v = pcoord_x1v pmb, x2v = pcoord_x2v pmb, x3v = pcoord_x3v pmb,
        gcon_direct = Map.empty, gcov_direct = Map.empty,
        gdet_direct = Map.empty, conn_direct = Map.empty\<rparr>"

definition Grid_flat :: "MeshBlock \<Rightarrow> Grid" where
  "Grid_flat pmb =
     \<lparr>coords = None,
      x1f = pcoord_x1f pmb, x2f = pcoord_x2f pmb, x3f = pcoord_x3f pmb,
      x1v = pcoord_x1v pmb, x2v = pcoord_x2v pmb, x3v = pcoord_x3v pmb,
      gcon_direct = Map.empty, gcov_direct = Map.empty,
      gdet_direct = Map.empty, conn_direct = Map.empty\<rparr>"

subsection \<open>A concrete mesh block\<close>

text \<open>
  A block of \<open>n\<close> zones of width 1 on every axis: faces at \<open>0, 1, ..., n\<close>, centres half
  a zone further. It serves as the concrete input of the examples below.
\<close>

definition unit_faces :: "int \<Rightarrow> ParArrayND" where
  "unit_faces n = (\<lambda>i. if 0 \<le> i \<and> i \<le> n then Some (real_of_int i) else None)"

definition unit_centers :: "int \<Rightarrow> ParArrayND" where
  "unit_centers n = (\<lambda>i. if 0 \<le> i \<and> i < n then Some (real_of_int i + 1 / 2) else None)"

definition unit_block :: "int \<Rightarrow> MeshBlock" where
  "unit_block n =
     \<lparr>pcoord_x1f = unit_faces n, pcoord_x2f = unit_faces n, pcoord_x3f = unit_faces n,
      pcoord_x1v = unit_centers n, pcoord_x2v = unit_centers n, pcoord_x3v = unit_centers n\<rparr>"

text \<open>
  A concrete embedding for the examples: a diagonal metric whose \<open>(2, 2)\<close> component
  grows with the first spatial coordinate, the inversion of a diagonal matrix, and a
  connection with one coordinate-dependent component.
\<close>

definition diag4 :: "Real \<Rightarrow> Real \<Rightarrow> Real \<Rightarrow> Real \<Rightarrow> Real list list" where
  "diag4 a b c d = [[a, 0, 0, 0], [0, b, 0, 0], [0, 0, c, 0], [0, 0, 0, d]]"

definition example_embedding :: CoordinateEmbedding where
  "example_embedding =
     \<lparr>coord_to_embed = (\<lambda>X. [X ! 0, X ! 1 + X ! 2, X ! 2, X ! 3]),
      gcov_native = (\<lambda>X. diag4 (- 1) 1 (1 + X ! 1 * X ! 1) 1),
      gcon_native = (\<lambda>g.
        (\<bar>g ! 0 ! 0 * g ! 1 ! 1 * g ! 2 ! 2 * g ! 3 ! 3\<bar>,
         diag4 (1 / g ! 0 ! 0) (1 / g ! 1 ! 1) (1 / g ! 2 ! 2) (1 / g ! 3 ! 3))),
      conn_func = (\<lambda>X. (replicate 4 (replicate 4 (replicate 4 0)))[2 := diag4 0 (X ! 1) 0 0])\<rparr>"

text \<open>The object that the general constructor hands to \<^verbatim>\<open>init_grids\<close> for this embedding
  on the block of two zones.\<close>

definition example_grid :: Grid where
  "example_grid =
     \<lparr>coords = Some example_embedding,
      x1f = unit_faces 2, x2f = unit_faces 2, x3f = unit_faces 2,
      x1v = unit_centers 2, x2v = unit_centers 2, x3v = unit_centers 2,
      gcon_direct = Map.empty, gcov_direct = Map.empty,
      gdet_direct = Map.empty, conn_direct = Map.empty\<rparr>"

subsection \<open>Reading the cache cell by cell\<close>

text \<open>
  The cells of the four cache views under one name, the content of a cell, and the
  members that the initialiser only reads.
\<close>

datatype cell =
  GCON Loci int int int int
| GCOV Loci int int int int
| GDET Loci int int
| CONN int int int int int

fun peek :: "Grid \<Rightarrow> cell \<Rightarrow> Real option" where
  "peek G (GCON loc i j mu nu) = gcon_direct G (loc, i, j, mu, nu)"
| "peek G (GCOV loc i j mu nu) = gcov_direct G (loc, i, j, mu, nu)"
| "peek G (GDET loc i j) = gdet_direct G (loc, i, j)"
| "peek G (CONN i j mu nu lam) = conn_direct G (i, j, mu, nu, lam)"

definition statics ::
  "Grid \<Rightarrow> CoordinateEmbedding option \<times> ParArrayND \<times> ParArrayND \<times> ParArrayND
            \<times> ParArrayND \<times> ParArrayND \<times> ParArrayND" where
  "statics G = (coords G, x1f G, x2f G, x3f G, x1v G, x2v G, x3v G)"

text \<open>The cells inside the extents of a cache allocated for \<open>n1\<close> by \<open>n2\<close> zones.\<close>

fun in_cache :: "int \<Rightarrow> int \<Rightarrow> cell \<Rightarrow> bool" where
  "in_cache n1 n2 (GCON loc i j mu nu) = (in_ext n1 i \<and> in_ext n2 j \<and> in_dim mu \<and> in_dim nu)"
| "in_cache n1 n2 (GCOV loc i j mu nu) = (in_ext n1 i \<and> in_ext n2 j \<and> in_dim mu \<and> in_dim nu)"
| "in_cache n1 n2 (GDET loc i j) = (in_ext n1 i \<and> in_ext n2 j)"
| "in_cache n1 n2 (CONN i j mu nu lam) =
     (in_ext n1 i \<and> in_ext n2 j \<and> in_dim mu \<and> in_dim nu \<and> in_dim lam)"

text \<open>
  What the spec says a filled cache holds, written from the spec's words (sections 3
  and 4.3): at \<open>(Location, i, j)\<close> the covariant metric of the embedding at the native
  coordinate of \<open>(i, j, 0, Location)\<close>, the contravariant matrix and the scalar that the
  embedding's inversion returns for that metric; at \<open>(i, j)\<close> the connection of the
  embedding at the native coordinate of \<open>(i, j, 0, center)\<close>.
\<close>

fun cache_spec :: "CoordinateEmbedding \<Rightarrow> Grid \<Rightarrow> GReal list \<Rightarrow> cell \<Rightarrow> Real option" where
  "cache_spec cs G X0 (GCOV loc i j mu nu) =
     map_option (\<lambda>X. gcov_native cs X ! nat mu ! nat nu) (coord G i j 0 loc X0)"
| "cache_spec cs G X0 (GCON loc i j mu nu) =
     map_option (\<lambda>X. snd (gcon_native cs (gcov_native cs X)) ! nat mu ! nat nu)
       (coord G i j 0 loc X0)"
| "cache_spec cs G X0 (GDET loc i j) =
     map_option (\<lambda>X. fst (gcon_native cs (gcov_native cs X))) (coord G i j 0 loc X0)"
| "cache_spec cs G X0 (CONN i j mu nu lam) =
     map_option (\<lambda>X. conn_func cs X ! nat mu ! nat nu ! nat lam) (coord G i j 0 center X0)"

text \<open>
  The cells that the loops of the initialiser write: one pair of metric cells for a
  fixed \<open>(mu, nu)\<close>, the metric cells and all cells of one \<open>(Location, i, j)\<close>, the
  cells of one \<open>(i, j)\<close>, and the connection cells of one \<open>(i, j)\<close>. \<open>alloc A G\<close> says
  that every cell of \<open>A\<close> lies inside the views of \<open>G\<close>.
\<close>

definition pair_cells :: "Loci \<Rightarrow> int \<Rightarrow> int \<Rightarrow> int \<Rightarrow> int \<Rightarrow> cell set" where
  "pair_cells loc i j mu nu = {GCOV loc i j mu nu, GCON loc i j mu nu}"

definition alloc :: "cell set \<Rightarrow> Grid \<Rightarrow> bool" where
  "alloc A G = (\<forall>c\<in>A. peek G c \<noteq> None)"

definition metric_cells :: "Loci \<Rightarrow> int \<Rightarrow> int \<Rightarrow> cell set" where
  "metric_cells loc i j = (\<Union>mu\<in>set [0..<NDIM]. \<Union>nu\<in>set [0..<NDIM]. pair_cells loc i j (int mu) (int nu))"

definition loc_cells :: "Loci \<Rightarrow> int \<Rightarrow> int \<Rightarrow> cell set" where
  "loc_cells loc i j = insert (GDET loc i j) (metric_cells loc i j)"

definition ij_cells :: "int \<Rightarrow> int \<Rightarrow> cell set" where
  "ij_cells i j = (\<Union>loc\<in>set all_Loci. loc_cells loc i j)"

definition conn_cells :: "int \<Rightarrow> int \<Rightarrow> cell set" where
  "conn_cells i j = (\<Union>mu\<in>set [0..<NDIM]. \<Union>nu\<in>set [0..<NDIM]. \<Union>kap\<in>set [0..<NDIM].
      {CONN i j (int mu) (int nu) (int kap)})"

text \<open>Matrix product and identity of 4x4 arrays, for the statement that one matrix is
  the inverse of another.\<close>

definition matmul4 :: "Real list list \<Rightarrow> Real list list \<Rightarrow> Real list list" where
  "matmul4 A B =
     map (\<lambda>mu. map (\<lambda>nu. \<Sum>lam\<leftarrow>[0..<NDIM]. A ! mu ! lam * B ! lam ! nu) [0..<NDIM]) [0..<NDIM]"

definition identity4 :: "Real list list" where
  "identity4 = [[1, 0, 0, 0], [0, 1, 0, 0], [0, 0, 1, 0], [0, 0, 0, 1]]"

section \<open>Properties\<close>

subsection \<open>Loops over the four dimensions\<close>

lemma NDIM_upt: "[0..<NDIM] = [0, 1, 2, 3]"
  by (simp add: NDIM_def upt_rec)

lemma shape1_iff: "shape1 v \<longleftrightarrow> (\<exists>a b c d. v = [a, b, c, d])"
  by (auto simp: shape1_def NDIM_def length_Suc_conv eval_nat_numeral)

lemma shape2_iff: "shape2 g \<longleftrightarrow> (\<exists>a b c d. g = [a, b, c, d] \<and> shape1 a \<and> shape1 b \<and> shape1 c \<and> shape1 d)"
  unfolding shape2_def shape1_iff[of g, unfolded shape1_def] by auto

lemma shape3_iff: "shape3 g \<longleftrightarrow> (\<exists>a b c d. g = [a, b, c, d] \<and> shape2 a \<and> shape2 b \<and> shape2 c \<and> shape2 d)"
  unfolding shape3_def shape1_iff[of g, unfolded shape1_def] by auto

lemma flat_metric_eq: "flat_metric mu nu = (if mu = nu then (if mu = 0 then - 1 else 1) else 0)"
  by (simp add: flat_metric_def)

lemma flat_full: "shape2 g \<Longrightarrow> DLOOP2 (\<lambda>mu nu g. Some (set2 g mu nu (flat_metric (int mu) (int nu)))) g
   = Some [[- 1, 0, 0, 0], [0, 1, 0, 0], [0, 0, 1, 0], [0, 0, 0, 1]]"
  by (auto simp: shape2_iff shape1_iff DLOOP2_def DLOOP1_def NDIM_upt set2_def flat_metric_eq)

lemma row_zero: "shape2 p \<Longrightarrow> DLOOP1 (\<lambda>nu. DLOOP1 (\<lambda>lam c. Some (set2 c nu lam (0::real)))) p = Some (replicate NDIM (replicate NDIM 0))"
  by (auto simp: shape2_iff shape1_iff DLOOP1_def NDIM_upt set2_def NDIM_def eval_nat_numeral)

lemma list_update_twice: "list_update (c[mu := x]) mu = list_update c mu"
  by (rule ext) simp

lemma foldM_lift_nth:
  "mu < length c \<Longrightarrow>
   foldM (\<lambda>x c. Some (c[mu := f x (c ! mu)])) xs c
     = map_option (\<lambda>p. c[mu := p]) (foldM (\<lambda>x p. Some (f x p)) xs (c ! mu))"
  by (induction xs arbitrary: c) (simp_all add: list_update_twice)

lemma foldM_lift_opt:
  assumes "mu < length c"
    and "\<And>x c. mu < length c \<Longrightarrow> body x c = map_option (\<lambda>p. c[mu := p]) (h x (c ! mu))"
  shows "foldM body xs c = map_option (\<lambda>p. c[mu := p]) (foldM h xs (c ! mu))"
  using assms(1)
proof (induction xs arbitrary: c)
  case Nil
  then show ?case by simp
next
  case (Cons x xs)
  show ?case
  proof (cases "h x (c ! mu)")
    case None
    then show ?thesis using Cons.prems by (simp add: assms(2))
  next
    case (Some p)
    have "foldM body (x # xs) c = foldM body xs (c[mu := p])"
      using Cons.prems Some by (simp add: assms(2))
    also have "\<dots> = map_option (\<lambda>q. c[mu := p, mu := q]) (foldM h xs (c[mu := p] ! mu))"
      using Cons.prems by (intro Cons.IH) simp
    finally show ?thesis using Cons.prems Some by simp
  qed
qed

lemma plane_zero:
  assumes "mu < length c" "shape2 (c ! mu)"
  shows "foldM (\<lambda>nu. foldM (\<lambda>lam c. Some (set3 c mu nu lam (0::real))) [0..<NDIM]) [0..<NDIM] c
           = Some (c[mu := replicate NDIM (replicate NDIM 0)])"
proof -
  have "foldM (\<lambda>nu. foldM (\<lambda>lam c. Some (set3 c mu nu lam (0::real))) [0..<NDIM]) [0..<NDIM] c
      = map_option (\<lambda>p. c[mu := p])
          (foldM (\<lambda>nu. foldM (\<lambda>lam p. Some (set2 p nu lam 0)) [0..<NDIM]) [0..<NDIM] (c ! mu))"
  proof (rule foldM_lift_opt[OF assms(1)])
    fix nu and c' :: "real list list list"
    assume "mu < length c'"
    then show "foldM (\<lambda>lam c. Some (set3 c mu nu lam 0)) [0..<NDIM] c'
        = map_option (\<lambda>p. c'[mu := p]) (foldM (\<lambda>lam p. Some (set2 p nu lam 0)) [0..<NDIM] (c' ! mu))"
      unfolding set3_def by (rule foldM_lift_nth[where f = "\<lambda>lam p. set2 p nu lam 0"])
  qed
  also have "\<dots> = Some (c[mu := replicate NDIM (replicate NDIM 0)])"
    using row_zero[OF assms(2)] by (simp add: DLOOP1_def)
  finally show ?thesis .
qed

lemma conn_zero: "shape3 c \<Longrightarrow> DLOOP3 (\<lambda>mu nu lam c. Some (set3 c mu nu lam (0::real))) c
   = Some (replicate NDIM (replicate NDIM (replicate NDIM 0)))"
proof -
  assume "shape3 c"
  then obtain p0 p1 p2 p3 where c: "c = [p0, p1, p2, p3]"
    and p: "shape2 p0" "shape2 p1" "shape2 p2" "shape2 p3"
    by (auto simp: shape3_iff)
  have four: "[0..<4] = [0, 1, 2, 3::nat]" by (simp add: upt_rec)
  have "foldM (\<lambda>mu. foldM (\<lambda>nu. foldM (\<lambda>lam c. Some (set3 c mu nu lam (0::real))) [0..<NDIM]) [0..<NDIM]) [0..<4] c
      = Some (replicate 4 (replicate NDIM (replicate NDIM 0)))"
    unfolding four c using p by (simp add: plane_zero eval_nat_numeral)
  then show ?thesis
    by (simp add: DLOOP3_def DLOOP2_def DLOOP1_def NDIM_def)
qed

lemma sum_NDIM: "(\<Sum>nu<NDIM. f nu) = f 0 + f 1 + f 2 + f (3::nat)"
  by (simp add: NDIM_def eval_nat_numeral)

lemma all_NDIM: "(\<forall>mu<NDIM. P mu) \<longleftrightarrow> P 0 \<and> P 1 \<and> P 2 \<and> P (3::nat)"
proof -
  have "\<And>mu. mu < NDIM \<longleftrightarrow> mu = 0 \<or> mu = 1 \<or> mu = 2 \<or> mu = 3"
    by (auto simp: NDIM_def)
  then show ?thesis by auto
qed

lemma contraction_loop:
  assumes "shape1 v" "shape1 w0"
    and "\<forall>mu<NDIM. \<forall>nu<NDIM. acc (int mu) (int nu) = Some (g mu nu)"
  shows "(DLOOP1 (\<lambda>mu w. Some (w[mu := 0])) w0 \<bind> 
     DLOOP2 (\<lambda>mu nu w. do {
       x \<leftarrow> acc (int mu) (int nu);
       Some (w[mu := w ! mu + x * v ! nu]) })) = Some (map (\<lambda>mu. \<Sum>nu<NDIM. g mu nu * v ! nu) [0..<NDIM])"
  using assms
  by (auto simp: all_NDIM sum_NDIM shape1_iff DLOOP2_def DLOOP1_def NDIM_upt)


subsection \<open>The flat build\<close>

text \<open>
  C1. In the flat build (\<^verbatim>\<open>FAST_CARTESIAN\<close> set) the scalar accessors \<open>gcov\<close> and \<open>gcon\<close>
  return the Minkowski diagonal: \<open>-1\<close> at \<open>mu = nu = 0\<close>, \<open>+1\<close> at \<open>mu = nu \<noteq> 0\<close>, \<open>0\<close>
  elsewhere, whatever the Location and the indices \<open>i\<close>, \<open>j\<close> are; \<open>gdet\<close> returns 1 and
  \<open>conn\<close> returns 0. The full-matrix overloads fill a 4x4 array with \<open>diag(-1, 1, 1, 1)\<close>
  and a 4x4x4 array with zeros.
\<close>

theorem flat_analytic_accessors:
  assumes "FAST_CARTESIAN b" and "shape2 g" and "shape3 c"
  shows "gcov b G loc i j mu nu = Some (if mu = nu then if mu = 0 then - 1 else 1 else 0)
       \<and> gcon b G loc i j mu nu = Some (if mu = nu then if mu = 0 then - 1 else 1 else 0)
       \<and> gdet b G loc i j = Some 1
       \<and> conn b G i j mu nu lam = Some 0
       \<and> gcov_full b G loc i j g = Some [[- 1, 0, 0, 0], [0, 1, 0, 0], [0, 0, 1, 0], [0, 0, 0, 1]]
       \<and> gcon_full b G loc i j g = Some [[- 1, 0, 0, 0], [0, 1, 0, 0], [0, 0, 1, 0], [0, 0, 0, 1]]
       \<and> conn_full b G i j c = Some (replicate NDIM (replicate NDIM (replicate NDIM 0)))"
proof -
  have scalars: "gcov b G loc i j mu nu = Some (if mu = nu then if mu = 0 then - 1 else 1 else 0)"
    "gcon b G loc i j mu nu = Some (if mu = nu then if mu = 0 then - 1 else 1 else 0)"
    "gdet b G loc i j = Some 1" "conn b G i j mu nu lam = Some 0"
    using assms(1) by (simp_all add: gcov_def gcon_def gdet_def conn_def flat_metric_eq)
  have full: "gcov_full b G loc i j g = Some [[- 1, 0, 0, 0], [0, 1, 0, 0], [0, 0, 1, 0], [0, 0, 0, 1]]"
    "gcon_full b G loc i j g = Some [[- 1, 0, 0, 0], [0, 1, 0, 0], [0, 0, 1, 0], [0, 0, 0, 1]]"
    "conn_full b G i j c = Some (replicate NDIM (replicate NDIM (replicate NDIM 0)))"
    using assms by (simp_all add: gcov_full_def gcon_full_def conn_full_def flat_full conn_zero)
  from scalars full show ?thesis by simp
qed

theorem flat_analytic_accessors_witness:
  "FAST_CARTESIAN flat_build
   \<and> shape2 [[5, 5, 5, 5], [5, 5, 5, 5], [5, 5, 5, 5], [5, 5, 5, 5::real]]
   \<and> shape3 (replicate 4 (replicate 4 (replicate 4 (5::real))))
   \<and> gcov flat_build (Grid_flat (unit_block 4)) center 2 2 0 0 = Some (- 1)
   \<and> gcon flat_build (Grid_flat (unit_block 4)) center 2 2 0 0 = Some (- 1)
   \<and> gdet flat_build (Grid_flat (unit_block 4)) center 2 2 = Some 1
   \<and> conn flat_build (Grid_flat (unit_block 4)) 2 2 0 0 1 = Some 0
   \<and> gcov_full flat_build (Grid_flat (unit_block 4)) center 2 2
        [[5, 5, 5, 5], [5, 5, 5, 5], [5, 5, 5, 5], [5, 5, 5, 5]]
       = Some [[- 1, 0, 0, 0], [0, 1, 0, 0], [0, 0, 1, 0], [0, 0, 0, 1]]
   \<and> gcon_full flat_build (Grid_flat (unit_block 4)) center 2 2
        [[5, 5, 5, 5], [5, 5, 5, 5], [5, 5, 5, 5], [5, 5, 5, 5]]
       = Some [[- 1, 0, 0, 0], [0, 1, 0, 0], [0, 0, 1, 0], [0, 0, 0, 1]]
   \<and> conn_full flat_build (Grid_flat (unit_block 4)) 2 2 (replicate 4 (replicate 4 (replicate 4 5)))
       = Some (replicate 4 (replicate 4 (replicate 4 0)))"
proof -
  have h1: "FAST_CARTESIAN flat_build" by (simp add: flat_build_def)
  have h2: "shape2 [[5, 5, 5, 5], [5, 5, 5, 5], [5, 5, 5, 5], [5, 5, 5, 5::real]]"
    by (simp add: shape2_def shape1_def NDIM_def)
  have h3: "shape3 (replicate 4 (replicate 4 (replicate 4 (5::real))))"
    by (simp add: shape3_def shape2_def shape1_def NDIM_def list_all_iff)
  show ?thesis
    using h1 h2 h3 flat_analytic_accessors[OF h1 h2 h3, of "Grid_flat (unit_block 4)" center 2 2 0 0 1]
    by (simp add: NDIM_def)
qed

subsection \<open>Native coordinates\<close>

text \<open>
  C2. For indices at which the six coordinate arrays are defined, \<open>coord\<close> returns a
  4-vector with time component 0 whose spatial components are taken from the centre
  arrays at \<open>center\<close>, from the face array on axis 1 only at \<open>face1\<close>, on axis 2 only at
  \<open>face2\<close>, on axis 3 only at \<open>face3\<close>, and from the three face arrays at \<open>corner\<close>. So
  the vectors at \<open>face1\<close> and \<open>center\<close> differ in the first spatial component only,
  which is the face-array value.
\<close>

theorem coord_selects_arrays:
  assumes "shape1 X"
    and "x1f G i = Some f1" "x2f G j = Some f2" "x3f G k = Some f3"
    and "x1v G i = Some v1" "x2v G j = Some v2" "x3v G k = Some v3"
  shows "coord G i j k center X = Some [0, v1, v2, v3]
       \<and> coord G i j k face1 X = Some [0, f1, v2, v3]
       \<and> coord G i j k face2 X = Some [0, v1, f2, v3]
       \<and> coord G i j k face3 X = Some [0, v1, v2, f3]
       \<and> coord G i j k corner X = Some [0, f1, f2, f3]"
  using assms by (auto simp: coord_def shape1_iff)

theorem coord_selects_arrays_witness:
  "shape1 [9, 9, 9, 9::real]
   \<and> x1f (Grid_flat (unit_block 4)) 2 = Some 2 \<and> x2f (Grid_flat (unit_block 4)) 1 = Some 1
   \<and> x3f (Grid_flat (unit_block 4)) 3 = Some 3
   \<and> x1v (Grid_flat (unit_block 4)) 2 = Some (5 / 2) \<and> x2v (Grid_flat (unit_block 4)) 1 = Some (3 / 2)
   \<and> x3v (Grid_flat (unit_block 4)) 3 = Some (7 / 2)
   \<and> coord (Grid_flat (unit_block 4)) 2 1 3 center [9, 9, 9, 9] = Some [0, 5 / 2, 3 / 2, 7 / 2]
   \<and> coord (Grid_flat (unit_block 4)) 2 1 3 face1 [9, 9, 9, 9] = Some [0, 2, 3 / 2, 7 / 2]
   \<and> coord (Grid_flat (unit_block 4)) 2 1 3 face2 [9, 9, 9, 9] = Some [0, 5 / 2, 1, 7 / 2]
   \<and> coord (Grid_flat (unit_block 4)) 2 1 3 face3 [9, 9, 9, 9] = Some [0, 5 / 2, 3 / 2, 3]
   \<and> coord (Grid_flat (unit_block 4)) 2 1 3 corner [9, 9, 9, 9] = Some [0, 2, 1, 3]"
proof -
  have h: "shape1 [9, 9, 9, 9::real]" by (simp add: shape1_def NDIM_def)
  have f: "x1f (Grid_flat (unit_block 4)) 2 = Some 2" "x2f (Grid_flat (unit_block 4)) 1 = Some 1"
    "x3f (Grid_flat (unit_block 4)) 3 = Some 3"
    by (simp_all add: Grid_flat_def unit_block_def unit_faces_def)
  have v: "x1v (Grid_flat (unit_block 4)) 2 = Some (5 / 2)" "x2v (Grid_flat (unit_block 4)) 1 = Some (3 / 2)"
    "x3v (Grid_flat (unit_block 4)) 3 = Some (7 / 2)"
    by (simp_all add: Grid_flat_def unit_block_def unit_centers_def)
  show ?thesis
    using h f v coord_selects_arrays[OF h f v] by simp
qed

subsection \<open>Lowering and raising an index\<close>

text \<open>
  C3. Where the accessors are defined, \<open>lower\<close> returns the vector whose component
  \<open>mu\<close> is the sum over \<open>nu\<close> of \<open>gcov(loc, i, j, mu, nu) * vcon[nu]\<close>, and \<open>raise\<close> the
  vector whose component \<open>mu\<close> is the sum over \<open>nu\<close> of \<open>gcon(loc, i, j, mu, nu) * vcov[nu]\<close>.
  The result is a function of the input vector and the metric alone: the previous
  content \<open>w0\<close> of the output array does not appear in it.
\<close>

theorem lower_raise_contract:
  assumes "shape1 v" "shape1 w0"
    and "\<forall>mu<NDIM. \<forall>nu<NDIM. gcov b G loc i j (int mu) (int nu) = Some (gc mu nu) \<and> gcon b G loc i j (int mu) (int nu) = Some (gn mu nu)"
  shows "lower b G v w0 i j k loc = Some (map (\<lambda>mu. \<Sum>nu<NDIM. gc mu nu * v ! nu) [0..<NDIM])
       \<and> raise b G v w0 i j k loc = Some (map (\<lambda>mu. \<Sum>nu<NDIM. gn mu nu * v ! nu) [0..<NDIM])"
  unfolding lower_def raise_def using assms by (simp add: contraction_loop)

theorem lower_raise_contract_witness:
  "shape1 [1, 0, 0, 0::real] \<and> shape1 [7, 7, 7, 7::real]
   \<and> list_all (\<lambda>mu. list_all (\<lambda>nu.
         gcov flat_build (Grid_flat (unit_block 4)) center 2 2 (int mu) (int nu)
           = Some (flat_metric (int mu) (int nu))
       \<and> gcon flat_build (Grid_flat (unit_block 4)) center 2 2 (int mu) (int nu)
           = Some (flat_metric (int mu) (int nu))) [0..<NDIM]) [0..<NDIM]
   \<and> lower flat_build (Grid_flat (unit_block 4)) [1, 0, 0, 0] [7, 7, 7, 7] 2 2 0 center
       = Some [- 1, 0, 0, 0]
   \<and> raise flat_build (Grid_flat (unit_block 4)) [1, 0, 0, 0] [7, 7, 7, 7] 2 2 0 center
       = Some [- 1, 0, 0, 0]"
proof -
  have h: "shape1 [1, 0, 0, 0::real]" "shape1 [7, 7, 7, 7::real]"
    by (simp_all add: shape1_def NDIM_def)
  have g: "\<forall>mu<NDIM. \<forall>nu<NDIM.
         gcov flat_build (Grid_flat (unit_block 4)) center 2 2 (int mu) (int nu)
           = Some (flat_metric (int mu) (int nu))
       \<and> gcon flat_build (Grid_flat (unit_block 4)) center 2 2 (int mu) (int nu)
           = Some (flat_metric (int mu) (int nu))"
    by (simp add: gcov_def gcon_def flat_build_def)
  have g': "list_all (\<lambda>mu. list_all (\<lambda>nu.
         gcov flat_build (Grid_flat (unit_block 4)) center 2 2 (int mu) (int nu)
           = Some (flat_metric (int mu) (int nu))
       \<and> gcon flat_build (Grid_flat (unit_block 4)) center 2 2 (int mu) (int nu)
           = Some (flat_metric (int mu) (int nu))) [0..<NDIM]) [0..<NDIM]"
    by (simp add: gcov_def gcon_def flat_build_def list_all_iff)
  have "lower flat_build (Grid_flat (unit_block 4)) [1, 0, 0, 0] [7, 7, 7, 7] 2 2 0 center
       = Some [- 1, 0, 0, 0]
   \<and> raise flat_build (Grid_flat (unit_block 4)) [1, 0, 0, 0] [7, 7, 7, 7] 2 2 0 center
       = Some [- 1, 0, 0, 0]"
    using lower_raise_contract[OF h g, of 0]
    by (simp add: NDIM_upt sum_NDIM flat_metric_eq)
  with h g' show ?thesis by simp
qed

subsection \<open>The effect of the cache initialiser, cell by cell\<close>

text \<open>
  Every loop of \<^verbatim>\<open>init_grids\<close> is a \<open>foldM\<close> whose body writes a set of cells and leaves
  the others as they are. The lemmas follow the nesting of the loops from the single
  write up to the two passes.
\<close>

lemma foldM_effect:
  fixes pk :: "'s \<Rightarrow> 'c \<Rightarrow> 'v option"
  assumes step: "\<And>x s. x \<in> set xs \<Longrightarrow> P s \<Longrightarrow>
       \<exists>s'. body x s = Some s' \<and> P s' \<and> (\<forall>c. pk s' c = (if c \<in> T x then tgt c else pk s c))"
    and "P s"
  shows "\<exists>s'. foldM body xs s = Some s' \<and> P s'
            \<and> (\<forall>c. pk s' c = (if c \<in> (\<Union>x\<in>set xs. T x) then tgt c else pk s c))"
  using assms
proof (induction xs arbitrary: s)
  case Nil
  then show ?case by simp
next
  case (Cons x xs)
  from Cons.prems(1)[of x s] Cons.prems(2)
  obtain s1 where s1: "body x s = Some s1" "P s1"
    "\<forall>c. pk s1 c = (if c \<in> T x then tgt c else pk s c)"
    by auto
  have "\<exists>s'. foldM body xs s1 = Some s' \<and> P s'
            \<and> (\<forall>c. pk s' c = (if c \<in> (\<Union>x\<in>set xs. T x) then tgt c else pk s1 c))"
    using Cons.prems(1) s1(2) by (intro Cons.IH) auto
  then obtain s' where s': "foldM body xs s1 = Some s'" "P s'"
    "\<forall>c. pk s' c = (if c \<in> (\<Union>x\<in>set xs. T x) then tgt c else pk s1 c)"
    by auto
  have "\<forall>c. pk s' c = (if c \<in> (\<Union>x\<in>set (x # xs). T x) then tgt c else pk s c)"
    using s'(3) s1(3) by auto
  with s1(1) s'(1,2) show ?case by simp
qed

lemma view_write_Some: "v idx = Some y \<Longrightarrow> view_write v idx x = Some (v(idx \<mapsto> x))"
  by (simp add: view_write_def)

lemma metric_write_effect:
  assumes "peek G (GCOV loc i j mu nu) \<noteq> None" "peek G (GCON loc i j mu nu) \<noteq> None"
    and "tgt (GCOV loc i j mu nu) = Some x" "tgt (GCON loc i j mu nu) = Some y"
  shows "\<exists>G'. (do {
            gc \<leftarrow> view_write (gcov_direct G) (loc, i, j, mu, nu) x;
            let G = G\<lparr>gcov_direct := gc\<rparr>;
            gn \<leftarrow> view_write (gcon_direct G) (loc, i, j, mu, nu) y;
            Some (G\<lparr>gcon_direct := gn\<rparr>) }) = Some G'
          \<and> statics G' = statics G
          \<and> (\<forall>c. peek G' c = (if c \<in> pair_cells loc i j mu nu then tgt c else peek G c))"
proof -
  from assms(1,2) obtain a b where ab: "gcov_direct G (loc, i, j, mu, nu) = Some a"
     "gcon_direct G (loc, i, j, mu, nu) = Some b" by auto
  let ?G' = "G\<lparr>gcov_direct := (gcov_direct G)((loc, i, j, mu, nu) \<mapsto> x),
               gcon_direct := (gcon_direct G)((loc, i, j, mu, nu) \<mapsto> y)\<rparr>"
  have "\<forall>c. peek ?G' c = (if c \<in> pair_cells loc i j mu nu then tgt c else peek G c)"
  proof
    fix c show "peek ?G' c = (if c \<in> pair_cells loc i j mu nu then tgt c else peek G c)"
      using assms(3,4) by (cases c) (auto simp: pair_cells_def)
  qed
  then show ?thesis
    using ab by (intro exI[of _ ?G']) (simp add: view_write_Some statics_def)
qed

lemma alloc_keep:
  assumes "alloc A s" "\<forall>c. peek s' c = (if c \<in> S then tgt c else peek s c)"
    and "\<forall>c\<in>S. tgt c \<noteq> None"
  shows "alloc A s'"
  unfolding alloc_def
proof
  fix c assume "c \<in> A"
  then have "peek s c \<noteq> None" using assms(1) by (simp add: alloc_def)
  moreover have "peek s' c = (if c \<in> S then tgt c else peek s c)" using assms(2) by simp
  ultimately show "peek s' c \<noteq> None" using assms(3) by (cases "c \<in> S") simp_all
qed

lemma foldM_cells:
  assumes step: "\<And>x s. x \<in> set xs \<Longrightarrow> Q s \<Longrightarrow> statics (g s) = F \<Longrightarrow> alloc A (g s) \<Longrightarrow>
       \<exists>s'. body x s = Some s' \<and> Q s' \<and> statics (g s') = F
           \<and> (\<forall>c. peek (g s') c = (if c \<in> T x then tgt c else peek (g s) c))"
    and tgt: "\<And>x c. x \<in> set xs \<Longrightarrow> c \<in> T x \<Longrightarrow> tgt c \<noteq> None"
    and init: "Q s" "statics (g s) = F" "alloc A (g s)"
  shows "\<exists>s'. foldM body xs s = Some s' \<and> Q s' \<and> statics (g s') = F \<and> alloc A (g s')
            \<and> (\<forall>c. peek (g s') c = (if c \<in> (\<Union>x\<in>set xs. T x) then tgt c else peek (g s) c))"
proof -
  define P where "P = (\<lambda>s. Q s \<and> statics (g s) = F \<and> alloc A (g s))"
  have "\<exists>s'. body x s = Some s' \<and> P s'
           \<and> (\<forall>c. peek (g s') c = (if c \<in> T x then tgt c else peek (g s) c))"
    if "x \<in> set xs" "P s" for x s
  proof -
    from step[OF that(1)] that(2) obtain s' where s': "body x s = Some s'" "Q s'"
      "statics (g s') = F" "\<forall>c. peek (g s') c = (if c \<in> T x then tgt c else peek (g s) c)"
      unfolding P_def by blast
    have a: "alloc A (g s)" using that(2) unfolding P_def by simp
    have t: "\<forall>c\<in>T x. tgt c \<noteq> None" using tgt[OF that(1)] by simp
    have "alloc A (g s')" by (rule alloc_keep[OF a s'(4) t])
    with s' show ?thesis unfolding P_def by blast
  qed
  note st = this
  have "P s" using init unfolding P_def by simp
  have "\<exists>s'. foldM body xs s = Some s' \<and> P s'
            \<and> (\<forall>c. (\<lambda>s. peek (g s)) s' c = (if c \<in> (\<Union>x\<in>set xs. T x) then tgt c else (\<lambda>s. peek (g s)) s c))"
    by (rule foldM_effect[where P = P and pk = "\<lambda>s. peek (g s)" and T = T and tgt = tgt, OF st \<open>P s\<close>])
  then show ?thesis unfolding P_def by simp
qed

lemma metric_loop_effect:
  assumes alloc: "alloc A G" "metric_cells loc i j \<subseteq> A"
    and tgt: "\<forall>mu<NDIM. \<forall>nu<NDIM. tgt (GCOV loc i j (int mu) (int nu)) = Some (a ! mu ! nu)
                    \<and> tgt (GCON loc i j (int mu) (int nu)) = Some (b ! mu ! nu)"
  shows "\<exists>G'. DLOOP2 (\<lambda>mu nu G. do {
            gc \<leftarrow> view_write (gcov_direct G) (loc, i, j, int mu, int nu) (a ! mu ! nu);
            let G = G\<lparr>gcov_direct := gc\<rparr>;
            gn \<leftarrow> view_write (gcon_direct G) (loc, i, j, int mu, int nu) (b ! mu ! nu);
            Some (G\<lparr>gcon_direct := gn\<rparr>) }) G = Some G'
          \<and> statics G' = statics G \<and> alloc A G'
          \<and> (\<forall>c. peek G' c = (if c \<in> metric_cells loc i j then tgt c else peek G c))"
proof -
  let ?F = "statics G"
  let ?w = "\<lambda>mu nu G. do {
            gc \<leftarrow> view_write (gcov_direct G) (loc, i, j, int mu, int nu) (a ! mu ! nu);
            let G = G\<lparr>gcov_direct := gc\<rparr>;
            gn \<leftarrow> view_write (gcon_direct G) (loc, i, j, int mu, int nu) (b ! mu ! nu);
            Some (G\<lparr>gcon_direct := gn\<rparr>) }"
  have tgt_pair: "tgt c \<noteq> None"
    if "mu < NDIM" "nu < NDIM" "c \<in> pair_cells loc i j (int mu) (int nu)" for mu nu c
    using tgt that by (auto simp: pair_cells_def)
  have cell: "\<exists>s'. ?w mu nu s = Some s' \<and> True \<and> statics s' = ?F
       \<and> (\<forall>c. peek s' c = (if c \<in> pair_cells loc i j (int mu) (int nu) then tgt c else peek s c))"
    if "mu < NDIM" "nu < NDIM" "statics s = ?F" "alloc A s" for mu nu s
  proof -
    have "mu \<in> set [0..<NDIM]" "nu \<in> set [0..<NDIM]" using that(1,2) by simp_all
    then have "pair_cells loc i j (int mu) (int nu) \<subseteq> metric_cells loc i j"
      unfolding metric_cells_def by blast
    then have "pair_cells loc i j (int mu) (int nu) \<subseteq> A"
      using alloc(2) by blast
    then have p: "peek s (GCOV loc i j (int mu) (int nu)) \<noteq> None"
      "peek s (GCON loc i j (int mu) (int nu)) \<noteq> None"
      using that(4) unfolding alloc_def pair_cells_def by blast+
    have t: "tgt (GCOV loc i j (int mu) (int nu)) = Some (a ! mu ! nu)"
      "tgt (GCON loc i j (int mu) (int nu)) = Some (b ! mu ! nu)"
      using that(1,2) tgt by blast+
    from metric_write_effect[OF p t] that(3) show ?thesis by simp
  qed
  have row: "\<exists>s'. foldM (?w mu) [0..<NDIM] s = Some s' \<and> True \<and> statics s' = ?F
       \<and> (\<forall>c. peek s' c = (if c \<in> (\<Union>nu\<in>set [0..<NDIM]. pair_cells loc i j (int mu) (int nu)) then tgt c else peek s c))"
    if mu: "mu < NDIM" and s: "statics s = ?F" "alloc A s" for mu s
  proof -
    have "\<exists>s'. foldM (?w mu) [0..<NDIM] s = Some s' \<and> True \<and> statics s' = ?F \<and> alloc A s'
       \<and> (\<forall>c. peek s' c = (if c \<in> (\<Union>nu\<in>set [0..<NDIM]. pair_cells loc i j (int mu) (int nu)) then tgt c else peek s c))"
    proof (rule foldM_cells[where g = "\<lambda>s. s" and Q = "\<lambda>_. True"])
      fix nu s' assume "nu \<in> set [0..<NDIM]" "statics s' = ?F" "alloc A s'"
      then show "\<exists>s''. ?w mu nu s' = Some s'' \<and> True \<and> statics s'' = ?F
         \<and> (\<forall>c. peek s'' c = (if c \<in> pair_cells loc i j (int mu) (int nu) then tgt c else peek s' c))"
        using cell[OF mu, of nu s'] by simp
    next
      fix nu c assume "nu \<in> set [0..<NDIM]" "c \<in> pair_cells loc i j (int mu) (int nu)"
      then show "tgt c \<noteq> None" using tgt_pair[OF mu, of nu c] by simp
    qed (use s in simp_all)
    then show ?thesis by blast
  qed
  have "\<exists>s'. foldM (\<lambda>mu. foldM (?w mu) [0..<NDIM]) [0..<NDIM] G = Some s' \<and> True \<and> statics s' = ?F \<and> alloc A s'
       \<and> (\<forall>c. peek s' c = (if c \<in> (\<Union>mu\<in>set [0..<NDIM]. \<Union>nu\<in>set [0..<NDIM]. pair_cells loc i j (int mu) (int nu)) then tgt c else peek G c))"
  proof (rule foldM_cells[where g = "\<lambda>s. s" and Q = "\<lambda>_. True"])
    fix mu s' assume "mu \<in> set [0..<NDIM]" "statics s' = ?F" "alloc A s'"
    then show "\<exists>s''. foldM (?w mu) [0..<NDIM] s' = Some s'' \<and> True \<and> statics s'' = ?F
         \<and> (\<forall>c. peek s'' c = (if c \<in> (\<Union>nu\<in>set [0..<NDIM]. pair_cells loc i j (int mu) (int nu)) then tgt c else peek s' c))"
      using row[of mu s'] by simp
  next
    fix mu c assume "mu \<in> set [0..<NDIM]" "c \<in> (\<Union>nu\<in>set [0..<NDIM]. pair_cells loc i j (int mu) (int nu))"
    then show "tgt c \<noteq> None" using tgt_pair[of mu _ c] by auto
  qed (use alloc(1) in simp_all)
  then show ?thesis
    unfolding DLOOP2_def DLOOP1_def metric_cells_def by blast
qed

lemma coord_statics: "statics G = statics G' \<Longrightarrow> coord G i j k loc X = coord G' i j k loc X"
proof -
  assume "statics G = statics G'"
  then have "x1f G = x1f G'" "x2f G = x2f G'" "x3f G = x3f G'"
    "x1v G = x1v G'" "x2v G = x2v G'" "x3v G = x3v G'"
    by (simp_all add: statics_def)
  then show ?thesis by (cases loc) (simp_all add: coord_def)
qed

lemma coord_shape: "shape1 X \<Longrightarrow> shape1 X' \<Longrightarrow> coord G i j k loc X = coord G i j k loc X'"
  by (cases loc) (auto simp: shape1_iff coord_def)

lemma coord_result_shape: "coord G i j k loc X = Some Y \<Longrightarrow> shape1 X \<Longrightarrow> shape1 Y"
  by (cases loc) (auto simp: shape1_def coord_def Let_def split: Option.bind_splits)

lemma GDET_notin_metric_cells: "GDET loc' i' j' \<notin> metric_cells loc i j"
  by (auto simp: metric_cells_def pair_cells_def)

lemma init_geom_loc_effect:
  assumes X: "shape1 X" and X0: "shape1 X0"
    and st: "statics G = statics G0"
    and co: "coord G0 i j 0 loc X0 \<noteq> None"
    and al: "alloc A G" "loc_cells loc i j \<subseteq> A"
  shows "\<exists>s'. init_geom_loc cs i j loc (X, G) = Some s' \<and> shape1 (fst s')
           \<and> statics (snd s') = statics G0
           \<and> (\<forall>c. peek (snd s') c = (if c \<in> loc_cells loc i j then cache_spec cs G0 X0 c else peek G c))"
proof -
  from co obtain Xn where Xn0: "coord G0 i j 0 loc X0 = Some Xn" by auto
  have Xn: "coord G i j 0 loc X = Some Xn"
    using Xn0 coord_statics[OF st] coord_shape[OF X X0] by simp
  have shXn: "shape1 Xn" using coord_result_shape[OF Xn X] .
  define a where "a = gcov_native cs Xn"
  obtain det b where db: "gcon_native cs a = (det, b)" by (cases "gcon_native cs a")
  let ?tgt = "cache_spec cs G0 X0"
  have "GDET loc i j \<in> A" using al(2) by (simp add: loc_cells_def)
  then obtain d0 where d0: "gdet_direct G (loc, i, j) = Some d0"
    using al(1) unfolding alloc_def by force
  define G1 where "G1 = G\<lparr>gdet_direct := (gdet_direct G)((loc, i, j) \<mapsto> det)\<rparr>"
  have w1: "view_write (gdet_direct G) (loc, i, j) det = Some ((gdet_direct G)((loc, i, j) \<mapsto> det))"
    using d0 by (rule view_write_Some)
  have st1: "statics G1 = statics G" by (simp add: G1_def statics_def)
  have tdet: "?tgt (GDET loc i j) = Some det"
    using Xn0 db by (simp add: a_def)
  have pk1: "\<forall>c. peek G1 c = (if c \<in> {GDET loc i j} then ?tgt c else peek G c)"
  proof
    fix c show "peek G1 c = (if c \<in> {GDET loc i j} then ?tgt c else peek G c)"
      using tdet by (cases c) (auto simp: G1_def)
  qed
  have "\<forall>c\<in>{GDET loc i j}. ?tgt c \<noteq> None"
    using tdet by (auto simp del: cache_spec.simps)
  then have al1: "alloc A G1"
    by (rule alloc_keep[OF al(1) pk1])
  have mc: "metric_cells loc i j \<subseteq> A" using al(2) by (auto simp: loc_cells_def)
  have tg: "\<forall>mu<NDIM. \<forall>nu<NDIM. ?tgt (GCOV loc i j (int mu) (int nu)) = Some (a ! mu ! nu)
                    \<and> ?tgt (GCON loc i j (int mu) (int nu)) = Some (b ! mu ! nu)"
    using Xn0 db by (simp add: a_def)
  from metric_loop_effect[OF al1 mc tg] obtain G' where G':
    "DLOOP2 (\<lambda>mu nu G. do {
            gc \<leftarrow> view_write (gcov_direct G) (loc, i, j, int mu, int nu) (a ! mu ! nu);
            let G = G\<lparr>gcov_direct := gc\<rparr>;
            gn \<leftarrow> view_write (gcon_direct G) (loc, i, j, int mu, int nu) (b ! mu ! nu);
            Some (G\<lparr>gcon_direct := gn\<rparr>) }) G1 = Some G'"
    "statics G' = statics G1"
    "\<forall>c. peek G' c = (if c \<in> metric_cells loc i j then ?tgt c else peek G1 c)"
    by blast
  have run: "init_geom_loc cs i j loc (X, G) = Some (Xn, G')"
    using Xn w1 G'(1) db unfolding init_geom_loc_def
    by (simp add: a_def[symmetric] G1_def[symmetric])
  have "\<forall>c. peek G' c = (if c \<in> loc_cells loc i j then ?tgt c else peek G c)"
    using G'(3) pk1 GDET_notin_metric_cells[of loc i j loc i j]
    by (auto simp: loc_cells_def simp del: peek.simps cache_spec.simps)
  with run shXn G'(2) st1 st show ?thesis by simp
qed

lemma cache_spec_loc_cells:
  assumes "c \<in> loc_cells loc i j" "coord G0 i j 0 loc X0 \<noteq> None"
  shows "cache_spec cs G0 X0 c \<noteq> None"
  using assms by (auto simp: loc_cells_def metric_cells_def pair_cells_def)

lemma init_geom_effect:
  assumes X0: "shape1 X0"
    and st: "statics G = statics G0"
    and co: "\<forall>loc. coord G0 i j 0 loc X0 \<noteq> None"
    and al: "alloc A G" "ij_cells i j \<subseteq> A"
  shows "\<exists>G'. init_geom cs X0 i j G = Some G' \<and> statics G' = statics G0 \<and> alloc A G'
           \<and> (\<forall>c. peek G' c = (if c \<in> ij_cells i j then cache_spec cs G0 X0 c else peek G c))"
proof -
  have "\<exists>s'. foldM (init_geom_loc cs i j) all_Loci (X0, G) = Some s' \<and> shape1 (fst s')
           \<and> statics (snd s') = statics G0 \<and> alloc A (snd s')
           \<and> (\<forall>c. peek (snd s') c = (if c \<in> (\<Union>loc\<in>set all_Loci. loc_cells loc i j)
                  then cache_spec cs G0 X0 c else peek (snd (X0, G)) c))"
  proof (rule foldM_cells[where g = snd and Q = "\<lambda>s. shape1 (fst s)"])
    fix loc and s :: "GReal list \<times> Grid"
    assume h: "loc \<in> set all_Loci" "shape1 (fst s)" "statics (snd s) = statics G0" "alloc A (snd s)"
    have sub: "loc_cells loc i j \<subseteq> A" using al(2) h(1) unfolding ij_cells_def by blast
    have c: "coord G0 i j 0 loc X0 \<noteq> None" using co by simp
    from init_geom_loc_effect[OF h(2) X0 h(3) c h(4) sub, of cs]
    show "\<exists>s'. init_geom_loc cs i j loc s = Some s' \<and> shape1 (fst s') \<and> statics (snd s') = statics G0
         \<and> (\<forall>c. peek (snd s') c = (if c \<in> loc_cells loc i j then cache_spec cs G0 X0 c else peek (snd s) c))"
      by simp
  next
    fix loc c assume "loc \<in> set all_Loci" "c \<in> loc_cells loc i j"
    then show "cache_spec cs G0 X0 c \<noteq> None"
      using cache_spec_loc_cells co by blast
  qed (use X0 st al(1) in simp_all)
  then show ?thesis
    unfolding init_geom_def ij_cells_def by auto
qed

lemma geom_pass_effect:
  assumes X0: "shape1 X0"
    and st: "statics G = statics G0"
    and co: "\<forall>(i, j)\<in>set pol. \<forall>loc. coord G0 i j 0 loc X0 \<noteq> None"
    and al: "alloc A G" "\<forall>(i, j)\<in>set pol. ij_cells i j \<subseteq> A"
  shows "\<exists>G'. parallel_for pol (init_geom cs X0) G = Some G' \<and> statics G' = statics G0 \<and> alloc A G'
           \<and> (\<forall>c. peek G' c = (if c \<in> (\<Union>(i, j)\<in>set pol. ij_cells i j)
                  then cache_spec cs G0 X0 c else peek G c))"
proof -
  have "\<exists>s'. foldM (\<lambda>(i, j). init_geom cs X0 i j) pol G = Some s' \<and> True
           \<and> statics s' = statics G0 \<and> alloc A s'
           \<and> (\<forall>c. peek s' c = (if c \<in> (\<Union>p\<in>set pol. (\<lambda>(i, j). ij_cells i j) p)
                  then cache_spec cs G0 X0 c else peek G c))"
  proof (rule foldM_cells[where g = "\<lambda>s. s" and Q = "\<lambda>_. True"])
    fix p s assume h: "p \<in> set pol" "statics s = statics G0" "alloc A s"
    obtain i j where p: "p = (i, j)" by (cases p)
    have c: "\<forall>loc. coord G0 i j 0 loc X0 \<noteq> None" using co h(1) p by blast
    have sub: "ij_cells i j \<subseteq> A" using al(2) h(1) p by blast
    from init_geom_effect[OF X0 h(2) c h(3) sub, of cs]
    show "\<exists>s'. (case p of (i, j) \<Rightarrow> init_geom cs X0 i j) s = Some s' \<and> True \<and> statics s' = statics G0
         \<and> (\<forall>c. peek s' c = (if c \<in> (case p of (i, j) \<Rightarrow> ij_cells i j) then cache_spec cs G0 X0 c else peek s c))"
      unfolding p by auto
  next
    fix p c assume h: "p \<in> set pol" "c \<in> (case p of (i, j) \<Rightarrow> ij_cells i j)"
    obtain i j where p: "p = (i, j)" by (cases p)
    from h p obtain loc where "c \<in> loc_cells loc i j" unfolding ij_cells_def by auto
    moreover have "coord G0 i j 0 loc X0 \<noteq> None" using co h(1) p by blast
    ultimately show "cache_spec cs G0 X0 c \<noteq> None" by (rule cache_spec_loc_cells)
  qed (use st al(1) in simp_all)
  then show ?thesis unfolding parallel_for_def by simp
qed

lemma conn_write_effect:
  assumes "peek G (CONN i j mu nu kap) \<noteq> None" and "tgt (CONN i j mu nu kap) = Some x"
  shows "\<exists>G'. (do {
            c \<leftarrow> view_write (conn_direct G) (i, j, mu, nu, kap) x;
            Some (G\<lparr>conn_direct := c\<rparr>) }) = Some G'
          \<and> statics G' = statics G
          \<and> (\<forall>c. peek G' c = (if c \<in> {CONN i j mu nu kap} then tgt c else peek G c))"
proof -
  from assms(1) obtain a where a: "conn_direct G (i, j, mu, nu, kap) = Some a" by auto
  let ?G' = "G\<lparr>conn_direct := (conn_direct G)((i, j, mu, nu, kap) \<mapsto> x)\<rparr>"
  have "\<forall>c. peek ?G' c = (if c \<in> {CONN i j mu nu kap} then tgt c else peek G c)"
  proof
    fix c show "peek ?G' c = (if c \<in> {CONN i j mu nu kap} then tgt c else peek G c)"
      using assms(2) by (cases c) auto
  qed
  then show ?thesis
    using a by (intro exI[of _ ?G']) (simp add: view_write_Some statics_def)
qed

lemma conn_loop_effect:
  assumes alloc: "alloc A G" "conn_cells i j \<subseteq> A"
    and tgt: "\<forall>mu<NDIM. \<forall>nu<NDIM. \<forall>kap<NDIM.
                 tgt (CONN i j (int mu) (int nu) (int kap)) = Some (t ! mu ! nu ! kap)"
  shows "\<exists>G'. DLOOP2 (\<lambda>mu nu. foldM (\<lambda>kap G. do {
            c \<leftarrow> view_write (conn_direct G) (i, j, int mu, int nu, int kap) (t ! mu ! nu ! kap);
            Some (G\<lparr>conn_direct := c\<rparr>) }) [0..<NDIM]) G = Some G'
          \<and> statics G' = statics G \<and> alloc A G'
          \<and> (\<forall>c. peek G' c = (if c \<in> conn_cells i j then tgt c else peek G c))"
proof -
  let ?F = "statics G"
  let ?w = "\<lambda>mu nu kap G. do {
            c \<leftarrow> view_write (conn_direct G) (i, j, int mu, int nu, int kap) (t ! mu ! nu ! kap);
            Some (G\<lparr>conn_direct := c\<rparr>) }"
  let ?T3 = "\<lambda>mu nu kap. {CONN i j (int mu) (int nu) (int kap)}"
  let ?T2 = "\<lambda>mu nu. \<Union>kap\<in>set [0..<NDIM]. ?T3 mu nu kap"
  let ?T1 = "\<lambda>mu. \<Union>nu\<in>set [0..<NDIM]. ?T2 mu nu"
  have tgt3: "tgt c \<noteq> None"
    if "mu < NDIM" "nu < NDIM" "kap < NDIM" "c \<in> ?T3 mu nu kap" for mu nu kap c
    using tgt that by auto
  have cell: "\<exists>s'. ?w mu nu kap s = Some s' \<and> True \<and> statics s' = ?F
       \<and> (\<forall>c. peek s' c = (if c \<in> ?T3 mu nu kap then tgt c else peek s c))"
    if "mu < NDIM" "nu < NDIM" "kap < NDIM" "statics s = ?F" "alloc A s" for mu nu kap s
  proof -
    have "mu \<in> set [0..<NDIM]" "nu \<in> set [0..<NDIM]" "kap \<in> set [0..<NDIM]"
      using that(1,2,3) by simp_all
    then have "CONN i j (int mu) (int nu) (int kap) \<in> conn_cells i j"
      unfolding conn_cells_def by blast
    then have "CONN i j (int mu) (int nu) (int kap) \<in> A" using alloc(2) by blast
    then have p: "peek s (CONN i j (int mu) (int nu) (int kap)) \<noteq> None"
      using that(5) unfolding alloc_def by blast
    have t: "tgt (CONN i j (int mu) (int nu) (int kap)) = Some (t ! mu ! nu ! kap)"
      using that(1,2,3) tgt by blast
    from conn_write_effect[where tgt = tgt and x = "t ! mu ! nu ! kap", OF p t] that(4)
    show ?thesis by simp
  qed
  have line: "\<exists>s'. foldM (?w mu nu) [0..<NDIM] s = Some s' \<and> True \<and> statics s' = ?F \<and> alloc A s'
       \<and> (\<forall>c. peek s' c = (if c \<in> ?T2 mu nu then tgt c else peek s c))"
    if mu: "mu < NDIM" and nu: "nu < NDIM" and s: "statics s = ?F" "alloc A s" for mu nu s
  proof (rule foldM_cells[where g = "\<lambda>s. s" and Q = "\<lambda>_. True"])
    fix kap s' assume h: "kap \<in> set [0..<NDIM]" "statics s' = ?F" "alloc A s'"
    then have k: "kap < NDIM" by simp
    from cell[OF mu nu k h(2,3)] show "\<exists>s''. ?w mu nu kap s' = Some s'' \<and> True \<and> statics s'' = ?F
         \<and> (\<forall>c. peek s'' c = (if c \<in> ?T3 mu nu kap then tgt c else peek s' c))"
      by blast
  next
    fix kap c assume "kap \<in> set [0..<NDIM]" "c \<in> ?T3 mu nu kap"
    then show "tgt c \<noteq> None" using tgt3[OF mu nu, of kap c] by simp
  qed (use s in simp_all)
  have row: "\<exists>s'. foldM (\<lambda>nu. foldM (?w mu nu) [0..<NDIM]) [0..<NDIM] s = Some s' \<and> True
       \<and> statics s' = ?F \<and> alloc A s'
       \<and> (\<forall>c. peek s' c = (if c \<in> ?T1 mu then tgt c else peek s c))"
    if mu: "mu < NDIM" and s: "statics s = ?F" "alloc A s" for mu s
  proof (rule foldM_cells[where g = "\<lambda>s. s" and Q = "\<lambda>_. True"])
    fix nu s' assume h: "nu \<in> set [0..<NDIM]" "statics s' = ?F" "alloc A s'"
    then have n: "nu < NDIM" by simp
    from line[OF mu n h(2,3)] show "\<exists>s''. foldM (?w mu nu) [0..<NDIM] s' = Some s'' \<and> True \<and> statics s'' = ?F
         \<and> (\<forall>c. peek s'' c = (if c \<in> ?T2 mu nu then tgt c else peek s' c))"
      by blast
  next
    fix nu c assume "nu \<in> set [0..<NDIM]" "c \<in> ?T2 mu nu"
    then show "tgt c \<noteq> None" using tgt3[OF mu, of nu _ c] by auto
  qed (use s in simp_all)
  have "\<exists>s'. foldM (\<lambda>mu. foldM (\<lambda>nu. foldM (?w mu nu) [0..<NDIM]) [0..<NDIM]) [0..<NDIM] G = Some s'
       \<and> True \<and> statics s' = ?F \<and> alloc A s'
       \<and> (\<forall>c. peek s' c = (if c \<in> (\<Union>mu\<in>set [0..<NDIM]. ?T1 mu) then tgt c else peek G c))"
  proof (rule foldM_cells[where g = "\<lambda>s. s" and Q = "\<lambda>_. True"])
    fix mu s' assume h: "mu \<in> set [0..<NDIM]" "statics s' = ?F" "alloc A s'"
    then have m: "mu < NDIM" by simp
    from row[OF m h(2,3)] show "\<exists>s''. foldM (\<lambda>nu. foldM (?w mu nu) [0..<NDIM]) [0..<NDIM] s' = Some s'' \<and> True
         \<and> statics s'' = ?F
         \<and> (\<forall>c. peek s'' c = (if c \<in> ?T1 mu then tgt c else peek s' c))"
      by blast
  next
    fix mu c assume "mu \<in> set [0..<NDIM]" "c \<in> ?T1 mu"
    then show "tgt c \<noteq> None" using tgt3[of mu _ _ c] by auto
  qed (use alloc(1) in simp_all)
  then show ?thesis
    unfolding DLOOP2_def DLOOP1_def conn_cells_def by blast
qed

lemma cache_spec_conn_cells:
  assumes "c \<in> conn_cells i j" "coord G0 i j 0 center X0 \<noteq> None"
  shows "cache_spec cs G0 X0 c \<noteq> None"
  using assms by (auto simp: conn_cells_def)

lemma init_conn_effect:
  assumes X0: "shape1 X0"
    and st: "statics G = statics G0"
    and co: "coord G0 i j 0 center X0 \<noteq> None"
    and al: "alloc A G" "conn_cells i j \<subseteq> A"
  shows "\<exists>G'. init_conn cs X0 i j G = Some G' \<and> statics G' = statics G0
           \<and> (\<forall>c. peek G' c = (if c \<in> conn_cells i j then cache_spec cs G0 X0 c else peek G c))"
proof -
  from co obtain Xn where Xn0: "coord G0 i j 0 center X0 = Some Xn" by auto
  have Xn: "coord G i j 0 center X0 = Some Xn"
    using Xn0 coord_statics[OF st] by simp
  define t where "t = conn_func cs Xn"
  have tg: "\<forall>mu<NDIM. \<forall>nu<NDIM. \<forall>kap<NDIM.
      cache_spec cs G0 X0 (CONN i j (int mu) (int nu) (int kap)) = Some (t ! mu ! nu ! kap)"
    using Xn0 by (simp add: t_def)
  from conn_loop_effect[OF al tg] obtain G' where G':
    "DLOOP2 (\<lambda>mu nu. foldM (\<lambda>kap G. do {
            c \<leftarrow> view_write (conn_direct G) (i, j, int mu, int nu, int kap) (t ! mu ! nu ! kap);
            Some (G\<lparr>conn_direct := c\<rparr>) }) [0..<NDIM]) G = Some G'"
    "statics G' = statics G"
    "\<forall>c. peek G' c = (if c \<in> conn_cells i j then cache_spec cs G0 X0 c else peek G c)"
    by blast
  have "init_conn cs X0 i j G = Some G'"
    using Xn G'(1) unfolding init_conn_def by (simp add: t_def[symmetric])
  with G'(2,3) st show ?thesis by simp
qed

lemma conn_pass_effect:
  assumes X0: "shape1 X0"
    and st: "statics G = statics G0"
    and co: "\<forall>(i, j)\<in>set pol. coord G0 i j 0 center X0 \<noteq> None"
    and al: "alloc A G" "\<forall>(i, j)\<in>set pol. conn_cells i j \<subseteq> A"
  shows "\<exists>G'. parallel_for pol (init_conn cs X0) G = Some G' \<and> statics G' = statics G0 \<and> alloc A G'
           \<and> (\<forall>c. peek G' c = (if c \<in> (\<Union>(i, j)\<in>set pol. conn_cells i j)
                  then cache_spec cs G0 X0 c else peek G c))"
proof -
  have "\<exists>s'. foldM (\<lambda>(i, j). init_conn cs X0 i j) pol G = Some s' \<and> True
           \<and> statics s' = statics G0 \<and> alloc A s'
           \<and> (\<forall>c. peek s' c = (if c \<in> (\<Union>p\<in>set pol. (\<lambda>(i, j). conn_cells i j) p)
                  then cache_spec cs G0 X0 c else peek G c))"
  proof (rule foldM_cells[where g = "\<lambda>s. s" and Q = "\<lambda>_. True"])
    fix p s assume h: "p \<in> set pol" "statics s = statics G0" "alloc A s"
    obtain i j where p: "p = (i, j)" by (cases p)
    have c: "coord G0 i j 0 center X0 \<noteq> None" using co h(1) p by blast
    have sub: "conn_cells i j \<subseteq> A" using al(2) h(1) p by blast
    from init_conn_effect[OF X0 h(2) c h(3) sub, of cs]
    show "\<exists>s'. (case p of (i, j) \<Rightarrow> init_conn cs X0 i j) s = Some s' \<and> True \<and> statics s' = statics G0
         \<and> (\<forall>c. peek s' c = (if c \<in> (case p of (i, j) \<Rightarrow> conn_cells i j) then cache_spec cs G0 X0 c else peek s c))"
      unfolding p by auto
  next
    fix p c assume h: "p \<in> set pol" "c \<in> (case p of (i, j) \<Rightarrow> conn_cells i j)"
    obtain i j where p: "p = (i, j)" by (cases p)
    from h p have "c \<in> conn_cells i j" by simp
    moreover have "coord G0 i j 0 center X0 \<noteq> None" using co h(1) p by blast
    ultimately show "cache_spec cs G0 X0 c \<noteq> None" by (rule cache_spec_conn_cells)
  qed (use st al(1) in simp_all)
  then show ?thesis unfolding parallel_for_def by simp
qed

lemma int_image_upt: "m \<in> int ` set [0..<n] \<longleftrightarrow> 0 \<le> m \<and> m < int n"
proof
  assume "m \<in> int ` set [0..<n]"
  then show "0 \<le> m \<and> m < int n" by auto
next
  assume h: "0 \<le> m \<and> m < int n"
  then have "nat m \<in> set [0..<n]" by (simp add: nat_less_iff)
  moreover have "m = int (nat m)" using h by simp
  ultimately show "m \<in> int ` set [0..<n]" by (rule rev_image_eqI)
qed

lemma in_dim_iff: "in_dim m \<longleftrightarrow> m \<in> int ` set [0..<NDIM]"
  by (simp only: int_image_upt in_dim_def)

lemma set_MDRange: "(i, j) \<in> set (MDRange n1 n2) \<longleftrightarrow> in_ext n1 i \<and> in_ext n2 j"
proof -
  have "in_ext n1 i \<longleftrightarrow> i \<in> int ` set [0..<nat n1]"
    unfolding int_image_upt in_ext_def by auto
  moreover have "in_ext n2 j \<longleftrightarrow> j \<in> int ` set [0..<nat n2]"
    unfolding int_image_upt in_ext_def by auto
  ultimately show ?thesis by (simp add: MDRange_def)
qed

lemma all_Loci_complete: "loc \<in> set all_Loci"
  by (cases loc) (simp_all add: all_Loci_def)

lemma mem_metric_cells:
  "c \<in> metric_cells loc i j \<longleftrightarrow>
     (\<exists>mu nu. in_dim mu \<and> in_dim nu \<and> (c = GCOV loc i j mu nu \<or> c = GCON loc i j mu nu))"
  unfolding metric_cells_def pair_cells_def in_dim_iff by blast

lemma mem_ij_cells:
  "c \<in> ij_cells i j \<longleftrightarrow>
     (\<exists>loc. c = GDET loc i j) \<or>
     (\<exists>loc mu nu. in_dim mu \<and> in_dim nu \<and> (c = GCOV loc i j mu nu \<or> c = GCON loc i j mu nu))"
  unfolding ij_cells_def loc_cells_def using all_Loci_complete mem_metric_cells by auto

lemma mem_conn_cells:
  "c \<in> conn_cells i j \<longleftrightarrow>
     (\<exists>mu nu kap. in_dim mu \<and> in_dim nu \<and> in_dim kap \<and> c = CONN i j mu nu kap)"
  unfolding conn_cells_def in_dim_iff by blast

lemma mem_pass:
  "c \<in> (\<Union>(i, j)\<in>set (MDRange n1 n2). f i j) \<longleftrightarrow> (\<exists>i j. in_ext n1 i \<and> in_ext n2 j \<and> c \<in> f i j)"
proof -
  have "c \<in> (\<Union>(i, j)\<in>set (MDRange n1 n2). f i j)
      \<longleftrightarrow> (\<exists>i j. (i, j) \<in> set (MDRange n1 n2) \<and> c \<in> f i j)"
    by auto
  then show ?thesis by (simp only: set_MDRange conj_assoc)
qed

lemma in_cache_iff:
  "in_cache n1 n2 c \<longleftrightarrow>
     c \<in> (\<Union>(i, j)\<in>set (MDRange n1 n2). ij_cells i j) \<or>
     c \<in> (\<Union>(i, j)\<in>set (MDRange n1 n2). conn_cells i j)"
  unfolding mem_pass mem_ij_cells mem_conn_cells
  by (cases c) auto

lemma init_grids_cells:
  assumes b: "\<not> FAST_CARTESIAN b" "\<not> NO_CACHE b"
    and cs: "coords G0 = Some cs" and X0: "shape1 X0"
    and co: "\<forall>i j loc. in_ext gn1 i \<longrightarrow> in_ext gn2 j \<longrightarrow> coord G0 i j 0 loc X0 \<noteq> None"
  shows "\<exists>G'. init_grids b gn1 gn2 X0 G0 = Some G' \<and> statics G' = statics G0
           \<and> (\<forall>c. peek G' c = (if in_cache gn1 gn2 c then cache_spec cs G0 X0 c else None))"
proof -
  define G1 where "G1 = G0\<lparr>gcon_direct := new_GeomTensor gn1 gn2,
     gcov_direct := new_GeomTensor gn1 gn2, gdet_direct := new_GeomScalar gn1 gn2,
     conn_direct := new_GeomConn gn1 gn2\<rparr>"
  define A where "A = {c. in_cache gn1 gn2 c}"
  let ?pol = "MDRange gn1 gn2"
  have st1: "statics G1 = statics G0" by (simp add: G1_def statics_def)
  have pk1: "peek G1 c = (if in_cache gn1 gn2 c then Some 0 else None)" for c
    by (cases c) (simp_all add: G1_def new_GeomTensor_def new_GeomScalar_def new_GeomConn_def)
  have al1: "alloc A G1" unfolding alloc_def A_def by (simp add: pk1)
  have co1: "\<forall>(i, j)\<in>set ?pol. \<forall>loc. coord G0 i j 0 loc X0 \<noteq> None"
    using co by (auto simp: set_MDRange)
  have co2: "\<forall>(i, j)\<in>set ?pol. coord G0 i j 0 center X0 \<noteq> None"
    using co by (auto simp: set_MDRange)
  have sub1: "\<forall>(i, j)\<in>set ?pol. ij_cells i j \<subseteq> A"
    unfolding A_def using in_cache_iff[of gn1 gn2] by blast
  have sub2: "\<forall>(i, j)\<in>set ?pol. conn_cells i j \<subseteq> A"
    unfolding A_def using in_cache_iff[of gn1 gn2] by blast
  from geom_pass_effect[OF X0 st1 co1 al1 sub1, of cs] obtain G2 where G2:
    "parallel_for ?pol (init_geom cs X0) G1 = Some G2" "statics G2 = statics G0" "alloc A G2"
    "\<forall>c. peek G2 c = (if c \<in> (\<Union>(i, j)\<in>set ?pol. ij_cells i j)
                  then cache_spec cs G0 X0 c else peek G1 c)"
    by blast
  from conn_pass_effect[OF X0 G2(2) co2 G2(3) sub2, of cs] obtain G3 where G3:
    "parallel_for ?pol (init_conn cs X0) G2 = Some G3" "statics G3 = statics G0"
    "\<forall>c. peek G3 c = (if c \<in> (\<Union>(i, j)\<in>set ?pol. conn_cells i j)
                  then cache_spec cs G0 X0 c else peek G2 c)"
    by blast
  have run: "init_grids b gn1 gn2 X0 G0 = Some G3"
    using b cs G2(1) G3(1) unfolding init_grids_def by (simp add: G1_def Let_def)
  have "peek G3 c = (if in_cache gn1 gn2 c then cache_spec cs G0 X0 c else None)" for c
    using G3(3) G2(4) pk1[of c] in_cache_iff[of gn1 gn2 c] by auto
  with run G3(2) show ?thesis by blast
qed

subsection \<open>The initialiser leaves the coordinate arrays and the embedding alone\<close>

lemma foldM_same:
  assumes "\<And>x s s'. x \<in> set xs \<Longrightarrow> body x s = Some s' \<Longrightarrow> h s' = h s"
    and "foldM body xs s = Some s'"
  shows "h s' = h s"
  using assms
proof (induction xs arbitrary: s)
  case Nil
  then show ?case by simp
next
  case (Cons x xs)
  from Cons.prems(2) obtain s1 where s1: "body x s = Some s1" "foldM body xs s1 = Some s'"
    by (auto split: option.splits)
  have "h s' = h s1" using Cons.prems(1) s1(2) by (intro Cons.IH) auto
  moreover have "h s1 = h s" using Cons.prems(1)[of x s s1] s1(1) by simp
  ultimately show ?case by simp
qed

lemma view_write_SomeD: "view_write v idx x = Some v' \<Longrightarrow> v' = v(idx \<mapsto> x)"
  by (auto simp: view_write_def split: option.splits)

lemma metric_loop_statics:
  assumes "DLOOP2 (\<lambda>mu nu G. do {
            gc \<leftarrow> view_write (gcov_direct G) (loc, i, j, int mu, int nu) (a ! mu ! nu);
            let G = G\<lparr>gcov_direct := gc\<rparr>;
            gn \<leftarrow> view_write (gcon_direct G) (loc, i, j, int mu, int nu) (b ! mu ! nu);
            Some (G\<lparr>gcon_direct := gn\<rparr>) }) G = Some G'"
  shows "statics G' = statics G"
proof -
  have cell: "statics s' = statics s"
    if "(do {
            gc \<leftarrow> view_write (gcov_direct s) (loc, i, j, int mu, int nu) (a ! mu ! nu);
            let G = s\<lparr>gcov_direct := gc\<rparr>;
            gn \<leftarrow> view_write (gcon_direct G) (loc, i, j, int mu, int nu) (b ! mu ! nu);
            Some (G\<lparr>gcon_direct := gn\<rparr>) }) = Some s'" for mu nu s s'
    using that by (auto simp: statics_def split: Option.bind_splits)
  have row: "statics s' = statics s"
    if "foldM (\<lambda>nu G. do {
            gc \<leftarrow> view_write (gcov_direct G) (loc, i, j, int mu, int nu) (a ! mu ! nu);
            let G = G\<lparr>gcov_direct := gc\<rparr>;
            gn \<leftarrow> view_write (gcon_direct G) (loc, i, j, int mu, int nu) (b ! mu ! nu);
            Some (G\<lparr>gcon_direct := gn\<rparr>) }) [0..<NDIM] s = Some s'" for mu s s'
    using _ that by (rule foldM_same) (rule cell)
  show ?thesis
    using _ assms[unfolded DLOOP2_def DLOOP1_def] by (rule foldM_same) (rule row)
qed

lemma init_geom_loc_statics:
  assumes "init_geom_loc cs i j loc s = Some s'"
  shows "statics (snd s') = statics (snd s)"
proof -
  obtain X G where s: "s = (X, G)" by (cases s)
  from assms obtain Xn det b gd G2 where
    "gcon_native cs (gcov_native cs Xn) = (det, b)"
    "view_write (gdet_direct G) (loc, i, j) det = Some gd"
    and run: "DLOOP2 (\<lambda>mu nu G. do {
            gc \<leftarrow> view_write (gcov_direct G) (loc, i, j, int mu, int nu) (gcov_native cs Xn ! mu ! nu);
            let G = G\<lparr>gcov_direct := gc\<rparr>;
            gn \<leftarrow> view_write (gcon_direct G) (loc, i, j, int mu, int nu) (b ! mu ! nu);
            Some (G\<lparr>gcon_direct := gn\<rparr>) }) (G\<lparr>gdet_direct := gd\<rparr>) = Some G2"
    and s': "s' = (Xn, G2)"
    unfolding s init_geom_loc_def
    by (auto simp: Let_def split: Option.bind_splits prod.splits)
  from metric_loop_statics[OF run] have "statics G2 = statics G" by (simp add: statics_def)
  then show ?thesis by (simp add: s s')
qed

lemma init_geom_statics:
  assumes "init_geom cs X0 i j G = Some G'"
  shows "statics G' = statics G"
proof -
  from assms obtain s' where s': "foldM (init_geom_loc cs i j) all_Loci (X0, G) = Some s'"
    "G' = snd s'" unfolding init_geom_def by auto
  have "statics (snd s') = statics (snd (X0, G))"
    using _ s'(1) by (rule foldM_same) (rule init_geom_loc_statics)
  with s'(2) show ?thesis by simp
qed

lemma init_conn_statics:
  assumes "init_conn cs X0 i j G = Some G'"
  shows "statics G' = statics G"
proof -
  from assms obtain X where X: "coord G i j 0 center X0 = Some X"
    and run: "DLOOP2 (\<lambda>mu nu. foldM (\<lambda>kap G. do {
         c \<leftarrow> view_write (conn_direct G) (i, j, int mu, int nu, int kap) (conn_func cs X ! mu ! nu ! kap);
         Some (G\<lparr>conn_direct := c\<rparr>) }) [0..<NDIM]) G = Some G'"
    unfolding init_conn_def by (auto split: Option.bind_splits)
  let ?w = "\<lambda>mu nu kap G. do {
         c \<leftarrow> view_write (conn_direct G) (i, j, int mu, int nu, int kap) (conn_func cs X ! mu ! nu ! kap);
         Some (G\<lparr>conn_direct := c\<rparr>) }"
  have cell: "statics s' = statics s" if "?w mu nu kap s = Some s'" for mu nu kap s s'
    using that by (auto simp: statics_def split: Option.bind_splits)
  have line: "statics s' = statics s" if "foldM (?w mu nu) [0..<NDIM] s = Some s'" for mu nu s s'
    using _ that by (rule foldM_same) (rule cell)
  have row: "statics s' = statics s"
    if "foldM (\<lambda>nu. foldM (?w mu nu) [0..<NDIM]) [0..<NDIM] s = Some s'" for mu s s'
    using _ that by (rule foldM_same) (rule line)
  show ?thesis
    using _ run[unfolded DLOOP2_def DLOOP1_def] by (rule foldM_same) (rule row)
qed

lemma parallel_for_statics:
  assumes "\<And>i j s s'. body i j s = Some s' \<Longrightarrow> statics s' = statics s"
    and "parallel_for pol body G = Some G'"
  shows "statics G' = statics G"
  using _ assms(2)[unfolded parallel_for_def]
proof (rule foldM_same)
  fix p s s' assume "(case p of (i, j) \<Rightarrow> body i j) s = Some s'"
  then show "statics s' = statics s" using assms(1) by (cases p) simp
qed

lemma init_grids_statics:
  assumes "init_grids b gn1 gn2 X0 G0 = Some G"
  shows "statics G = statics G0"
proof (cases "FAST_CARTESIAN b \<or> NO_CACHE b")
  case True
  with assms show ?thesis by (simp add: init_grids_def)
next
  case False
  define G1 where "G1 = G0\<lparr>gcon_direct := new_GeomTensor gn1 gn2,
     gcov_direct := new_GeomTensor gn1 gn2, gdet_direct := new_GeomScalar gn1 gn2,
     conn_direct := new_GeomConn gn1 gn2\<rparr>"
  from assms False obtain cs G2 where
    "parallel_for (MDRange gn1 gn2) (init_geom cs X0) G1 = Some G2"
    "parallel_for (MDRange gn1 gn2) (init_conn cs X0) G2 = Some G"
    unfolding init_grids_def by (auto simp: G1_def Let_def split: Option.bind_splits)
  then have "statics G2 = statics G1" "statics G = statics G2"
    using parallel_for_statics[of "init_geom cs X0"] parallel_for_statics[of "init_conn cs X0"]
      init_geom_statics init_conn_statics by blast+
  moreover have "statics G1 = statics G0" by (simp add: G1_def statics_def)
  ultimately show ?thesis by simp
qed

lemma unit_block_coord_defined:
  assumes "in_ext n i" "in_ext n j" "0 < n"
  shows "coord \<lparr>coords = c, x1f = unit_faces n, x2f = unit_faces n, x3f = unit_faces n,
        x1v = unit_centers n, x2v = unit_centers n, x3v = unit_centers n,
        gcon_direct = a1, gcov_direct = a2, gdet_direct = a3, conn_direct = a4\<rparr> i j 0 loc X \<noteq> None"
  using assms by (cases loc) (simp_all add: coord_def in_ext_def unit_faces_def unit_centers_def)


subsection \<open>The filled cache\<close>

text \<open>
  C7. In the cached build, when the embedding pointer is set and the native coordinate
  is defined at every \<open>(i, j, 0, Location)\<close> of the block, the initialiser completes,
  and afterwards, for every \<open>(i, j)\<close> of the block and every Location, the accessors
  \<open>gcov\<close>, \<open>gcon\<close> and \<open>gdet\<close> return the embedding's covariant metric at the native
  coordinate of \<open>(i, j, 0, Location)\<close>, the contravariant matrix and the scalar that the
  embedding's inversion returns for that metric; \<open>conn\<close> returns the embedding's
  connection at the native coordinate of \<open>(i, j, 0, center)\<close>, whatever Location the
  caller has in mind.
\<close>

theorem cached_initializer_fills_cache:
  assumes cs: "coords G0 = Some cs" and X0: "shape1 X0"
    and co: "\<forall>i j loc. in_ext gn1 i \<longrightarrow> in_ext gn2 j \<longrightarrow> coord G0 i j 0 loc X0 \<noteq> None"
  shows "\<exists>G'. init_grids cached_build gn1 gn2 X0 G0 = Some G'
     \<and> (\<forall>loc i j. in_ext gn1 i \<longrightarrow> in_ext gn2 j \<longrightarrow>
          (\<exists>X. coord G0 i j 0 loc X0 = Some X \<and> coord G' i j 0 loc X0 = Some X
             \<and> (\<forall>mu nu. in_dim mu \<longrightarrow> in_dim nu \<longrightarrow>
                  gcov cached_build G' loc i j mu nu = Some (gcov_native cs X ! nat mu ! nat nu)
                \<and> gcon cached_build G' loc i j mu nu
                    = Some (snd (gcon_native cs (gcov_native cs X)) ! nat mu ! nat nu))
             \<and> gdet cached_build G' loc i j = Some (fst (gcon_native cs (gcov_native cs X)))))
     \<and> (\<forall>i j. in_ext gn1 i \<longrightarrow> in_ext gn2 j \<longrightarrow>
          (\<exists>X. coord G0 i j 0 center X0 = Some X \<and> coord G' i j 0 center X0 = Some X
             \<and> (\<forall>mu nu lam. in_dim mu \<longrightarrow> in_dim nu \<longrightarrow> in_dim lam \<longrightarrow>
                  conn cached_build G' i j mu nu lam
                    = Some (conn_func cs X ! nat mu ! nat nu ! nat lam))))"
proof -
  have b: "\<not> FAST_CARTESIAN cached_build" "\<not> NO_CACHE cached_build"
    by (simp_all add: cached_build_def)
  from init_grids_cells[OF b cs X0 co] obtain G' where G':
    "init_grids cached_build gn1 gn2 X0 G0 = Some G'" "statics G' = statics G0"
    "\<forall>c. peek G' c = (if in_cache gn1 gn2 c then cache_spec cs G0 X0 c else None)"
    by blast
  have same: "coord G' i j k loc X = coord G0 i j k loc X" for i j k loc X
    by (rule coord_statics[OF G'(2)])
  have metric: "\<exists>X. coord G0 i j 0 loc X0 = Some X \<and> coord G' i j 0 loc X0 = Some X
             \<and> (\<forall>mu nu. in_dim mu \<longrightarrow> in_dim nu \<longrightarrow>
                  gcov cached_build G' loc i j mu nu = Some (gcov_native cs X ! nat mu ! nat nu)
                \<and> gcon cached_build G' loc i j mu nu
                    = Some (snd (gcon_native cs (gcov_native cs X)) ! nat mu ! nat nu))
             \<and> gdet cached_build G' loc i j = Some (fst (gcon_native cs (gcov_native cs X)))"
    if ij: "in_ext gn1 i" "in_ext gn2 j" for loc i j
  proof -
    from co ij obtain X where X: "coord G0 i j 0 loc X0 = Some X" by blast
    have "gcov cached_build G' loc i j mu nu = Some (gcov_native cs X ! nat mu ! nat nu)
        \<and> gcon cached_build G' loc i j mu nu
            = Some (snd (gcon_native cs (gcov_native cs X)) ! nat mu ! nat nu)"
      if "in_dim mu" "in_dim nu" for mu nu
      using G'(3)[rule_format, of "GCOV loc i j mu nu"] G'(3)[rule_format, of "GCON loc i j mu nu"]
        ij that X
      by (simp add: gcov_def gcon_def cached_build_def)
    moreover have "gdet cached_build G' loc i j = Some (fst (gcon_native cs (gcov_native cs X)))"
      using G'(3)[rule_format, of "GDET loc i j"] ij X
      by (simp add: gdet_def cached_build_def)
    ultimately show ?thesis using X same by auto
  qed
  have connection: "\<exists>X. coord G0 i j 0 center X0 = Some X \<and> coord G' i j 0 center X0 = Some X
             \<and> (\<forall>mu nu lam. in_dim mu \<longrightarrow> in_dim nu \<longrightarrow> in_dim lam \<longrightarrow>
                  conn cached_build G' i j mu nu lam
                    = Some (conn_func cs X ! nat mu ! nat nu ! nat lam))"
    if ij: "in_ext gn1 i" "in_ext gn2 j" for i j
  proof -
    from co ij obtain X where X: "coord G0 i j 0 center X0 = Some X" by blast
    have "conn cached_build G' i j mu nu lam = Some (conn_func cs X ! nat mu ! nat nu ! nat lam)"
      if "in_dim mu" "in_dim nu" "in_dim lam" for mu nu lam
      using G'(3)[rule_format, of "CONN i j mu nu lam"] ij that X
      by (simp add: conn_def cached_build_def)
    then show ?thesis using X same by auto
  qed
  from G'(1) metric connection show ?thesis by blast
qed



theorem cached_initializer_fills_cache_witness:
  "\<exists>G'. Grid_general cached_build 2 2 [0, 0, 0, 0] example_embedding (unit_block 2) = Some G'
     \<and> gcov cached_build G' face1 1 0 2 2 = Some 2
     \<and> gcon cached_build G' face1 1 0 2 2 = Some (1 / 2)
     \<and> gdet cached_build G' face1 1 0 = Some 2
     \<and> conn cached_build G' 1 0 2 1 1 = Some (3 / 2)"
proof -
  define G0 where "G0 = \<lparr>coords = Some example_embedding,
        x1f = unit_faces 2, x2f = unit_faces 2, x3f = unit_faces 2,
        x1v = unit_centers 2, x2v = unit_centers 2, x3v = unit_centers 2,
        gcon_direct = Map.empty, gcov_direct = Map.empty,
        gdet_direct = Map.empty, conn_direct = Map.empty\<rparr>"
  have h1: "coords G0 = Some example_embedding" by (simp add: G0_def)
  have h2: "shape1 [0, 0, 0, 0::real]" by (simp add: shape1_def NDIM_def)
  have h3: "\<forall>i j loc. in_ext 2 i \<longrightarrow> in_ext 2 j \<longrightarrow> coord G0 i j 0 loc [0, 0, 0, 0] \<noteq> None"
    unfolding G0_def using unit_block_coord_defined[of 2] by simp
  from cached_initializer_fills_cache[OF h1 h2 h3] obtain G' where G':
    "init_grids cached_build 2 2 [0, 0, 0, 0] G0 = Some G'"
    and m: "\<And>loc i j. in_ext 2 i \<Longrightarrow> in_ext 2 j \<Longrightarrow>
          (\<exists>X. coord G0 i j 0 loc [0, 0, 0, 0] = Some X \<and> coord G' i j 0 loc [0, 0, 0, 0] = Some X
             \<and> (\<forall>mu nu. in_dim mu \<longrightarrow> in_dim nu \<longrightarrow>
                  gcov cached_build G' loc i j mu nu = Some (gcov_native example_embedding X ! nat mu ! nat nu)
                \<and> gcon cached_build G' loc i j mu nu
                    = Some (snd (gcon_native example_embedding (gcov_native example_embedding X)) ! nat mu ! nat nu))
             \<and> gdet cached_build G' loc i j = Some (fst (gcon_native example_embedding (gcov_native example_embedding X))))"
    and c: "\<And>i j. in_ext 2 i \<Longrightarrow> in_ext 2 j \<Longrightarrow>
          (\<exists>X. coord G0 i j 0 center [0, 0, 0, 0] = Some X \<and> coord G' i j 0 center [0, 0, 0, 0] = Some X
             \<and> (\<forall>mu nu lam. in_dim mu \<longrightarrow> in_dim nu \<longrightarrow> in_dim lam \<longrightarrow>
                  conn cached_build G' i j mu nu lam
                    = Some (conn_func example_embedding X ! nat mu ! nat nu ! nat lam)))"
    by blast
  have e: "in_ext 2 1" "in_ext 2 0" "in_dim 2" "in_dim 1" by (simp_all add: in_ext_def in_dim_def NDIM_def)
  have X1: "coord G0 1 0 0 face1 [0, 0, 0, 0] = Some [0, 1, 1 / 2, 1 / 2]"
    by (simp add: G0_def coord_def unit_faces_def unit_centers_def)
  have X2: "coord G0 1 0 0 center [0, 0, 0, 0] = Some [0, 3 / 2, 1 / 2, 1 / 2]"
    by (simp add: G0_def coord_def unit_faces_def unit_centers_def)
  from m[OF e(1,2), of face1] X1 e(3)
  have "gcov cached_build G' face1 1 0 2 2 = Some 2"
    "gcon cached_build G' face1 1 0 2 2 = Some (1 / 2)"
    "gdet cached_build G' face1 1 0 = Some 2"
    by (auto simp: example_embedding_def diag4_def)
  moreover from c[OF e(1,2)] X2 e(3,4)
  have "conn cached_build G' 1 0 2 1 1 = Some (3 / 2)"
    by (auto simp: example_embedding_def diag4_def)
  ultimately show ?thesis
    using G' by (simp add: Grid_general_def unit_block_def G0_def)
qed

subsection \<open>The example grid\<close>

lemma Grid_general_example:
  "Grid_general b 2 2 X0 example_embedding (unit_block 2) = init_grids b 2 2 X0 example_grid"
  by (simp add: Grid_general_def example_grid_def unit_block_def)

lemma example_grid_coords: "coords example_grid = Some example_embedding"
  by (simp add: example_grid_def)

lemma example_grid_defined:
  "\<forall>i j loc. in_ext 2 i \<longrightarrow> in_ext 2 j \<longrightarrow> coord example_grid i j 0 loc [0, 0, 0, 0] \<noteq> None"
  unfolding example_grid_def using unit_block_coord_defined[of 2] by simp

lemma shape1_zero: "shape1 [0, 0, 0, 0::real]"
  by (simp add: shape1_def NDIM_def)

lemma one_plus_square: "1 + x * x \<noteq> (0::real)"
proof -
  have "0 \<le> x * x" by simp
  then have "0 < 1 + x * x" by linarith
  then show ?thesis by simp
qed

lemma example_embedding_inverse:
  "matmul4 (snd (gcon_native example_embedding (gcov_native example_embedding X)))
     (gcov_native example_embedding X) = identity4"
  by (simp add: example_embedding_def diag4_def matmul4_def identity4_def NDIM_upt one_plus_square)

subsection \<open>Raising after lowering\<close>

lemma contract_inverse:
  fixes gn gc :: "nat \<Rightarrow> nat \<Rightarrow> real"
  assumes inv: "\<forall>mu<N. \<forall>lam<N. (\<Sum>nu<N. gn mu nu * gc nu lam) = (if mu = lam then 1 else 0)"
    and mu: "mu < N"
  shows "(\<Sum>nu<N. gn mu nu * (\<Sum>lam<N. gc nu lam * f lam)) = f mu"
proof -
  have "(\<Sum>nu<N. gn mu nu * (\<Sum>lam<N. gc nu lam * f lam))
      = (\<Sum>nu<N. \<Sum>lam<N. gn mu nu * gc nu lam * f lam)"
    by (simp add: sum_distrib_left mult.assoc)
  also have "\<dots> = (\<Sum>lam<N. \<Sum>nu<N. gn mu nu * gc nu lam * f lam)"
    by (rule sum.swap)
  also have "\<dots> = (\<Sum>lam<N. (\<Sum>nu<N. gn mu nu * gc nu lam) * f lam)"
    by (simp add: sum_distrib_right)
  also have "\<dots> = (\<Sum>lam<N. if mu = lam then f lam else 0)"
    using inv mu by (intro sum.cong) auto
  also have "\<dots> = f mu"
    using mu by simp
  finally show ?thesis .
qed

lemma map_nth_NDIM: "shape1 v \<Longrightarrow> map (\<lambda>mu. v ! mu) [0..<NDIM] = v"
  unfolding shape1_def by (metis map_nth)

lemma roundtrip_of_inverse:
  assumes v: "shape1 v" and w0: "shape1 w0" and u0: "shape1 u0"
    and acc1: "\<forall>mu<NDIM. \<forall>nu<NDIM. gcov b G loc i j (int mu) (int nu) = Some (gc mu nu)"
    and acc2: "\<forall>mu<NDIM. \<forall>nu<NDIM. gcon b G loc i j (int mu) (int nu) = Some (gn mu nu)"
    and inv: "\<forall>mu<NDIM. \<forall>nu<NDIM. (\<Sum>lam<NDIM. gn mu lam * gc lam nu) = (if mu = nu then 1 else 0)"
  shows "lower b G v w0 i j k loc = Some (map (\<lambda>mu. \<Sum>nu<NDIM. gc mu nu * v ! nu) [0..<NDIM])"
    and "(lower b G v w0 i j k loc \<bind> (\<lambda>w. raise b G w u0 i j k loc)) = Some v"
proof -
  define w where "w = map (\<lambda>mu. \<Sum>nu<NDIM. gc mu nu * v ! nu) [0..<NDIM]"
  show lw: "lower b G v w0 i j k loc = Some (map (\<lambda>mu. \<Sum>nu<NDIM. gc mu nu * v ! nu) [0..<NDIM])"
    unfolding lower_def by (rule contraction_loop[OF v w0 acc1])
  have shw: "shape1 w" by (simp add: w_def shape1_def)
  have wn: "w ! nu = (\<Sum>lam<NDIM. gc nu lam * v ! lam)" if "nu < NDIM" for nu
    using that by (simp add: w_def)
  have "raise b G w u0 i j k loc = Some (map (\<lambda>mu. \<Sum>nu<NDIM. gn mu nu * w ! nu) [0..<NDIM])"
    unfolding raise_def by (rule contraction_loop[OF shw u0 acc2])
  also have "map (\<lambda>mu. \<Sum>nu<NDIM. gn mu nu * w ! nu) [0..<NDIM] = map (\<lambda>mu. v ! mu) [0..<NDIM]"
  proof (rule map_cong[OF refl])
    fix mu assume "mu \<in> set [0..<NDIM]"
    then have mu: "mu < NDIM" by simp
    have "(\<Sum>nu<NDIM. gn mu nu * w ! nu) = (\<Sum>nu<NDIM. gn mu nu * (\<Sum>lam<NDIM. gc nu lam * v ! lam))"
      by (rule sum.cong) (simp_all add: wn)
    also have "\<dots> = v ! mu" by (rule contract_inverse[OF inv mu])
    finally show "(\<Sum>nu<NDIM. gn mu nu * w ! nu) = v ! mu" .
  qed
  also have "\<dots> = v" by (rule map_nth_NDIM[OF v])
  finally show "(lower b G v w0 i j k loc \<bind> (\<lambda>w. raise b G w u0 i j k loc)) = Some v"
    using lw by (simp add: w_def)
qed

lemma sum_list_NDIM: "(\<Sum>lam\<leftarrow>[0..<NDIM]. f lam) = (\<Sum>lam<NDIM. f lam)"
  by (simp add: NDIM_upt sum_NDIM add.assoc)

lemma matmul4_nth:
  assumes "mu < NDIM" "nu < NDIM"
  shows "matmul4 M N ! mu ! nu = (\<Sum>lam<NDIM. M ! mu ! lam * N ! lam ! nu)"
  using assms by (simp add: matmul4_def sum_list_NDIM del: upt_Suc)

lemma identity4_nth:
  assumes "mu < NDIM" "nu < NDIM"
  shows "identity4 ! mu ! nu = (if mu = nu then 1 else 0)"
proof -
  have "mu = 0 \<or> mu = 1 \<or> mu = 2 \<or> mu = 3" "nu = 0 \<or> nu = 1 \<or> nu = 2 \<or> nu = 3"
    using assms by (auto simp: NDIM_def)
  then show ?thesis by (auto simp: identity4_def)
qed

lemma matmul4_identityD:
  assumes "matmul4 M N = identity4"
  shows "\<forall>mu<NDIM. \<forall>nu<NDIM. (\<Sum>lam<NDIM. M ! mu ! lam * N ! lam ! nu) = (if mu = nu then 1 else 0)"
  using assms matmul4_nth[of _ _ M N] identity4_nth by metis

text \<open>
  C4. Round trip. In the flat build, \<open>lower\<close> negates the time component of a 4-vector
  and leaves the others, and \<open>raise\<close> of the result is the original vector. In the
  cached build, on the cache that the initialiser has filled from an embedding whose
  \<open>gcon_native\<close> returns the inverse of every covariant metric its \<open>gcov_native\<close>
  produces, \<open>lower\<close> at a \<open>(Location, i, j)\<close> of the block contracts the vector with the
  embedding's covariant metric at the native coordinate of \<open>(i, j, 0, Location)\<close>, and
  \<open>raise\<close> of the result is the original vector, for every index \<open>k\<close>. Arithmetic is
  exact here; the tolerance of the floating-point types is outside the model.
\<close>

theorem raise_lower_roundtrip:
  assumes v: "shape1 v" and w0: "shape1 w0" and u0: "shape1 u0"
  shows "(FAST_CARTESIAN b \<longrightarrow>
            lower b G v w0 i j k loc = Some [- (v ! 0), v ! 1, v ! 2, v ! 3]
          \<and> raise b G [- (v ! 0), v ! 1, v ! 2, v ! 3] u0 i j k loc = Some v)
       \<and> (coords G0 = Some cs \<and> shape1 X0
          \<and> (\<forall>i j loc. in_ext gn1 i \<longrightarrow> in_ext gn2 j \<longrightarrow> coord G0 i j 0 loc X0 \<noteq> None)
          \<and> (\<forall>X. matmul4 (snd (gcon_native cs (gcov_native cs X))) (gcov_native cs X) = identity4)
          \<and> in_ext gn1 i \<and> in_ext gn2 j \<longrightarrow>
           (\<exists>G' X. init_grids cached_build gn1 gn2 X0 G0 = Some G'
              \<and> coord G0 i j 0 loc X0 = Some X
              \<and> lower cached_build G' v w0 i j k loc
                  = Some (map (\<lambda>mu. \<Sum>nu<NDIM. gcov_native cs X ! mu ! nu * v ! nu) [0..<NDIM])
              \<and> (lower cached_build G' v w0 i j k loc
                    \<bind> (\<lambda>w. raise cached_build G' w u0 i j k loc)) = Some v))"
proof (intro conjI impI)
  assume b: "FAST_CARTESIAN b"
  have acc: "\<forall>mu<NDIM. \<forall>nu<NDIM. gcov b G loc i j (int mu) (int nu) = Some (flat_metric (int mu) (int nu))"
    "\<forall>mu<NDIM. \<forall>nu<NDIM. gcon b G loc i j (int mu) (int nu) = Some (flat_metric (int mu) (int nu))"
    using b by (simp_all add: gcov_def gcon_def)
  from v obtain a0 a1 a2 a3 where ve: "v = [a0, a1, a2, a3]" by (auto simp: shape1_iff)
  have sh: "shape1 [- a0, a1, a2, a3]" by (simp add: shape1_def NDIM_def)
  show "lower b G v w0 i j k loc = Some [- (v ! 0), v ! 1, v ! 2, v ! 3]"
    unfolding lower_def contraction_loop[OF v w0 acc(1)]
    by (simp add: ve NDIM_upt sum_NDIM flat_metric_eq)
  show "raise b G [- (v ! 0), v ! 1, v ! 2, v ! 3] u0 i j k loc = Some v"
    unfolding raise_def ve using contraction_loop[OF sh u0 acc(2)]
    by (simp add: NDIM_upt sum_NDIM flat_metric_eq)
next
  assume a: "coords G0 = Some cs \<and> shape1 X0
          \<and> (\<forall>i j loc. in_ext gn1 i \<longrightarrow> in_ext gn2 j \<longrightarrow> coord G0 i j 0 loc X0 \<noteq> None)
          \<and> (\<forall>X. matmul4 (snd (gcon_native cs (gcov_native cs X))) (gcov_native cs X) = identity4)
          \<and> in_ext gn1 i \<and> in_ext gn2 j"
  then have cs: "coords G0 = Some cs" and X0: "shape1 X0"
    and co: "\<forall>i j loc. in_ext gn1 i \<longrightarrow> in_ext gn2 j \<longrightarrow> coord G0 i j 0 loc X0 \<noteq> None"
    and inv: "\<And>X. matmul4 (snd (gcon_native cs (gcov_native cs X))) (gcov_native cs X) = identity4"
    and ij: "in_ext gn1 i" "in_ext gn2 j"
    by blast+
  have b: "\<not> FAST_CARTESIAN cached_build" "\<not> NO_CACHE cached_build"
    by (simp_all add: cached_build_def)
  from init_grids_cells[OF b cs X0 co] obtain G' where G':
    "init_grids cached_build gn1 gn2 X0 G0 = Some G'"
    "\<forall>c. peek G' c = (if in_cache gn1 gn2 c then cache_spec cs G0 X0 c else None)"
    by blast
  from co ij obtain X where X: "coord G0 i j 0 loc X0 = Some X" by blast
  let ?cov = "gcov_native cs X"
  let ?con = "snd (gcon_native cs ?cov)"
  have acc1: "\<forall>mu<NDIM. \<forall>nu<NDIM.
      gcov cached_build G' loc i j (int mu) (int nu) = Some (?cov ! mu ! nu)"
    using G'(2)[rule_format, of "GCOV loc i j (int mu) (int nu)" for mu nu] ij X
    by (simp add: gcov_def cached_build_def in_dim_def)
  have acc2: "\<forall>mu<NDIM. \<forall>nu<NDIM.
      gcon cached_build G' loc i j (int mu) (int nu) = Some (?con ! mu ! nu)"
    using G'(2)[rule_format, of "GCON loc i j (int mu) (int nu)" for mu nu] ij X
    by (simp add: gcon_def cached_build_def in_dim_def)
  note i4 = matmul4_identityD[OF inv[of X]]
  from roundtrip_of_inverse[OF v w0 u0 acc1 acc2 i4, of k] G'(1) X
  show "\<exists>G' X. init_grids cached_build gn1 gn2 X0 G0 = Some G'
              \<and> coord G0 i j 0 loc X0 = Some X
              \<and> lower cached_build G' v w0 i j k loc
                  = Some (map (\<lambda>mu. \<Sum>nu<NDIM. gcov_native cs X ! mu ! nu * v ! nu) [0..<NDIM])
              \<and> (lower cached_build G' v w0 i j k loc
                    \<bind> (\<lambda>w. raise cached_build G' w u0 i j k loc)) = Some v"
    by blast
qed

theorem raise_lower_roundtrip_witness:
  "shape1 [1, 2, 3, 4::real] \<and> shape1 [7, 7, 7, 7::real] \<and> shape1 [8, 8, 8, 8::real]
   \<and> FAST_CARTESIAN flat_build
   \<and> lower flat_build (Grid_flat (unit_block 4)) [1, 2, 3, 4] [7, 7, 7, 7] 1 0 1 face1
       = Some [- 1, 2, 3, 4]
   \<and> raise flat_build (Grid_flat (unit_block 4)) [- 1, 2, 3, 4] [8, 8, 8, 8] 1 0 1 face1
       = Some [1, 2, 3, 4]
   \<and> coords example_grid = Some example_embedding \<and> in_ext 2 1 \<and> in_ext 2 0
   \<and> (\<exists>G'. Grid_general cached_build 2 2 [0, 0, 0, 0] example_embedding (unit_block 2) = Some G'
        \<and> lower cached_build G' [1, 2, 3, 4] [7, 7, 7, 7] 1 0 1 face1 = Some [- 1, 2, 6, 4]
        \<and> (lower cached_build G' [1, 2, 3, 4] [7, 7, 7, 7] 1 0 1 face1
              \<bind> (\<lambda>w. raise cached_build G' w [8, 8, 8, 8] 1 0 1 face1)) = Some [1, 2, 3, 4])"
proof -
  have h: "shape1 [1, 2, 3, 4::real]" "shape1 [7, 7, 7, 7::real]" "shape1 [8, 8, 8, 8::real]"
    by (simp_all add: shape1_def NDIM_def)
  have b: "FAST_CARTESIAN flat_build" by (simp add: flat_build_def)
  have e: "in_ext 2 1" "in_ext 2 0" by (simp_all add: in_ext_def)
  note t = raise_lower_roundtrip[OF h, where b = flat_build and G = "Grid_flat (unit_block 4)"
      and loc = face1 and i = 1 and j = 0 and k = 1 and ?G0.0 = example_grid
      and cs = example_embedding and ?X0.0 = "[0, 0, 0, 0]" and ?gn1.0 = 2 and ?gn2.0 = 2]
  from t[THEN conjunct1, rule_format, OF b] have flat:
    "lower flat_build (Grid_flat (unit_block 4)) [1, 2, 3, 4] [7, 7, 7, 7] 1 0 1 face1
       = Some [- 1, 2, 3, 4]"
    "raise flat_build (Grid_flat (unit_block 4)) [- 1, 2, 3, 4] [8, 8, 8, 8] 1 0 1 face1
       = Some [1, 2, 3, 4]"
    by simp_all
  have hyp: "coords example_grid = Some example_embedding \<and> shape1 [0, 0, 0, 0::real]
      \<and> (\<forall>i j loc. in_ext 2 i \<longrightarrow> in_ext 2 j \<longrightarrow> coord example_grid i j 0 loc [0, 0, 0, 0] \<noteq> None)
      \<and> (\<forall>X. matmul4 (snd (gcon_native example_embedding (gcov_native example_embedding X)))
               (gcov_native example_embedding X) = identity4)
      \<and> in_ext 2 1 \<and> in_ext 2 0"
    by (intro conjI allI example_grid_coords shape1_zero example_grid_defined
        example_embedding_inverse e)
  from t[THEN conjunct2, rule_format, OF hyp]
  obtain G' X where G': "init_grids cached_build 2 2 [0, 0, 0, 0] example_grid = Some G'"
    and X: "coord example_grid 1 0 0 face1 [0, 0, 0, 0] = Some X"
    and lw: "lower cached_build G' [1, 2, 3, 4] [7, 7, 7, 7] 1 0 1 face1
        = Some (map (\<lambda>mu. \<Sum>nu<NDIM. gcov_native example_embedding X ! mu ! nu * [1, 2, 3, 4] ! nu) [0..<NDIM])"
    and rt: "(lower cached_build G' [1, 2, 3, 4] [7, 7, 7, 7] 1 0 1 face1
              \<bind> (\<lambda>w. raise cached_build G' w [8, 8, 8, 8] 1 0 1 face1)) = Some [1, 2, 3, 4]"
    by blast
  have "coord example_grid 1 0 0 face1 [0, 0, 0, 0] = Some [0, 1, 1 / 2, 1 / 2]"
    by (simp add: example_grid_def coord_def unit_faces_def unit_centers_def)
  with X have "X = [0, 1, 1 / 2, 1 / 2]" by simp
  with lw have "lower cached_build G' [1, 2, 3, 4] [7, 7, 7, 7] 1 0 1 face1 = Some [- 1, 2, 6, 4]"
    by (simp add: NDIM_upt sum_NDIM example_embedding_def diag4_def)
  then have lw': "lower cached_build G' [1, 2, 3, 4] [7, 7, 7, 7] 1 0 1 face1 = Some [- 1, 2, 6, 4]" .
  have gg: "Grid_general cached_build 2 2 [0, 0, 0, 0] example_embedding (unit_block 2) = Some G'"
    using G' by (simp only: Grid_general_example)
  have "\<exists>G'. Grid_general cached_build 2 2 [0, 0, 0, 0] example_embedding (unit_block 2) = Some G'
        \<and> lower cached_build G' [1, 2, 3, 4] [7, 7, 7, 7] 1 0 1 face1 = Some [- 1, 2, 6, 4]
        \<and> (lower cached_build G' [1, 2, 3, 4] [7, 7, 7, 7] 1 0 1 face1
              \<bind> (\<lambda>w. raise cached_build G' w [8, 8, 8, 8] 1 0 1 face1)) = Some [1, 2, 3, 4]"
    by (rule exI[of _ G']) (intro conjI gg lw' rt)
  with h b flat e example_grid_coords show ?thesis by (intro conjI)
qed

subsection \<open>The contravariant metric is the inverse of the covariant one\<close>

lemma full_read_loop:
  assumes "shape2 g"
    and "\<forall>mu<NDIM. \<forall>nu<NDIM. rd (int mu) (int nu) = Some (m mu nu)"
  shows "DLOOP2 (\<lambda>mu nu g. do { x \<leftarrow> rd (int mu) (int nu); Some (set2 g mu nu x) }) g
       = Some (map (\<lambda>mu. map (\<lambda>nu. m mu nu) [0..<NDIM]) [0..<NDIM])"
  using assms
  by (auto simp: all_NDIM shape2_iff shape1_iff DLOOP2_def DLOOP1_def NDIM_upt set2_def)

lemma matmul4_reshape:
  "matmul4 (map (\<lambda>mu. map (\<lambda>nu. M ! mu ! nu) [0..<NDIM]) [0..<NDIM])
           (map (\<lambda>mu. map (\<lambda>nu. N ! mu ! nu) [0..<NDIM]) [0..<NDIM]) = matmul4 M N"
  by (simp add: matmul4_def NDIM_upt)

lemma in_dim_int: "mu < NDIM \<Longrightarrow> in_dim (int mu)"
  by (simp add: in_dim_def)

text \<open>
  C5. The matrix that the full-matrix overload of \<open>gcon\<close> writes, times the matrix that
  the overload of \<open>gcov\<close> writes, is the identity: in the flat build always; in the
  cached build after initialisation, at every \<open>(Location, i, j)\<close> of the block, when
  the embedding's \<open>gcon_native\<close> returns the inverse of every covariant metric that its
  \<open>gcov_native\<close> produces.
\<close>

theorem gcon_is_inverse_of_gcov:
  assumes g: "shape2 g" and h: "shape2 h"
  shows "(FAST_CARTESIAN b \<longrightarrow>
           (\<exists>A B. gcon_full b G loc i j g = Some A \<and> gcov_full b G loc i j h = Some B
                  \<and> matmul4 A B = identity4))
       \<and> (coords G0 = Some cs \<and> shape1 X0
          \<and> (\<forall>i j loc. in_ext gn1 i \<longrightarrow> in_ext gn2 j \<longrightarrow> coord G0 i j 0 loc X0 \<noteq> None)
          \<and> (\<forall>X. matmul4 (snd (gcon_native cs (gcov_native cs X))) (gcov_native cs X) = identity4)
          \<and> in_ext gn1 i \<and> in_ext gn2 j \<longrightarrow>
           (\<exists>G' A B. init_grids cached_build gn1 gn2 X0 G0 = Some G'
                  \<and> gcon_full cached_build G' loc i j g = Some A
                  \<and> gcov_full cached_build G' loc i j h = Some B
                  \<and> matmul4 A B = identity4))"
proof (intro conjI impI)
  assume b: "FAST_CARTESIAN b"
  have "gcon_full b G loc i j g = Some (diag4 (- 1) 1 1 1)"
    "gcov_full b G loc i j h = Some (diag4 (- 1) 1 1 1)"
    using b g h by (simp_all add: gcon_full_def gcov_full_def flat_full diag4_def)
  moreover have "matmul4 (diag4 (- 1) 1 1 1) (diag4 (- 1) 1 1 1) = identity4"
    by (simp add: matmul4_def diag4_def identity4_def NDIM_upt)
  ultimately show "\<exists>A B. gcon_full b G loc i j g = Some A \<and> gcov_full b G loc i j h = Some B
                  \<and> matmul4 A B = identity4"
    by blast
next
  assume a: "coords G0 = Some cs \<and> shape1 X0
          \<and> (\<forall>i j loc. in_ext gn1 i \<longrightarrow> in_ext gn2 j \<longrightarrow> coord G0 i j 0 loc X0 \<noteq> None)
          \<and> (\<forall>X. matmul4 (snd (gcon_native cs (gcov_native cs X))) (gcov_native cs X) = identity4)
          \<and> in_ext gn1 i \<and> in_ext gn2 j"
  then have cs: "coords G0 = Some cs" and X0: "shape1 X0"
    and co: "\<forall>i j loc. in_ext gn1 i \<longrightarrow> in_ext gn2 j \<longrightarrow> coord G0 i j 0 loc X0 \<noteq> None"
    and inv: "\<And>X. matmul4 (snd (gcon_native cs (gcov_native cs X))) (gcov_native cs X) = identity4"
    and ij: "in_ext gn1 i" "in_ext gn2 j"
    by blast+
  have b: "\<not> FAST_CARTESIAN cached_build" "\<not> NO_CACHE cached_build"
    by (simp_all add: cached_build_def)
  from init_grids_cells[OF b cs X0 co] obtain G' where G':
    "init_grids cached_build gn1 gn2 X0 G0 = Some G'"
    "\<forall>c. peek G' c = (if in_cache gn1 gn2 c then cache_spec cs G0 X0 c else None)"
    by blast
  from co ij obtain X where X: "coord G0 i j 0 loc X0 = Some X" by blast
  let ?cov = "gcov_native cs X"
  let ?con = "snd (gcon_native cs ?cov)"
  have rd_con: "\<forall>mu<NDIM. \<forall>nu<NDIM. gcon_direct G' (loc, i, j, int mu, int nu) = Some (?con ! mu ! nu)"
    using G'(2)[rule_format, of "GCON loc i j (int mu) (int nu)" for mu nu] ij X
    by (simp add: in_dim_int)
  have rd_cov: "\<forall>mu<NDIM. \<forall>nu<NDIM. gcov_direct G' (loc, i, j, int mu, int nu) = Some (?cov ! mu ! nu)"
    using G'(2)[rule_format, of "GCOV loc i j (int mu) (int nu)" for mu nu] ij X
    by (simp add: in_dim_int)
  have A: "gcon_full cached_build G' loc i j g
      = Some (map (\<lambda>mu. map (\<lambda>nu. ?con ! mu ! nu) [0..<NDIM]) [0..<NDIM])"
    using full_read_loop[OF g, of "\<lambda>mu nu. gcon_direct G' (loc, i, j, mu, nu)", OF rd_con]
    by (simp add: gcon_full_def cached_build_def)
  have B: "gcov_full cached_build G' loc i j h
      = Some (map (\<lambda>mu. map (\<lambda>nu. ?cov ! mu ! nu) [0..<NDIM]) [0..<NDIM])"
    using full_read_loop[OF h, of "\<lambda>mu nu. gcov_direct G' (loc, i, j, mu, nu)", OF rd_cov]
    by (simp add: gcov_full_def cached_build_def)
  have "matmul4 (map (\<lambda>mu. map (\<lambda>nu. ?con ! mu ! nu) [0..<NDIM]) [0..<NDIM])
                (map (\<lambda>mu. map (\<lambda>nu. ?cov ! mu ! nu) [0..<NDIM]) [0..<NDIM]) = identity4"
    unfolding matmul4_reshape by (rule inv)
  with G'(1) A B show "\<exists>G' A B. init_grids cached_build gn1 gn2 X0 G0 = Some G'
                  \<and> gcon_full cached_build G' loc i j g = Some A
                  \<and> gcov_full cached_build G' loc i j h = Some B
                  \<and> matmul4 A B = identity4"
    by blast
qed

theorem gcon_is_inverse_of_gcov_witness:
  "shape2 (replicate 4 [5, 5, 5, 5::real]) \<and> FAST_CARTESIAN flat_build
   \<and> (\<exists>A B. gcon_full flat_build (Grid_flat (unit_block 4)) face1 1 0 (replicate 4 [5, 5, 5, 5]) = Some A
          \<and> gcov_full flat_build (Grid_flat (unit_block 4)) face1 1 0 (replicate 4 [5, 5, 5, 5]) = Some B
          \<and> matmul4 A B = identity4)
   \<and> coords example_grid = Some example_embedding
   \<and> in_ext 2 1 \<and> in_ext 2 0
   \<and> (\<exists>G' A B. Grid_general cached_build 2 2 [0, 0, 0, 0] example_embedding (unit_block 2) = Some G'
          \<and> gcon_full cached_build G' face1 1 0 (replicate 4 [5, 5, 5, 5]) = Some A
          \<and> gcov_full cached_build G' face1 1 0 (replicate 4 [5, 5, 5, 5]) = Some B
          \<and> matmul4 A B = identity4)"
proof -
  have g: "shape2 (replicate 4 [5, 5, 5, 5::real])"
    by (simp add: shape2_def shape1_def NDIM_def list_all_iff)
  have b: "FAST_CARTESIAN flat_build" by (simp add: flat_build_def)
  have e: "in_ext 2 1" "in_ext 2 0" by (simp_all add: in_ext_def)
  note t = gcon_is_inverse_of_gcov[OF g g, where b = flat_build and G = "Grid_flat (unit_block 4)" and loc = face1
      and i = 1 and j = 0 and ?G0.0 = example_grid and cs = example_embedding
      and ?X0.0 = "[0, 0, 0, 0]" and ?gn1.0 = 2 and ?gn2.0 = 2]
  from t b have flat: "\<exists>A B. gcon_full flat_build (Grid_flat (unit_block 4)) face1 1 0 (replicate 4 [5, 5, 5, 5]) = Some A
          \<and> gcov_full flat_build (Grid_flat (unit_block 4)) face1 1 0 (replicate 4 [5, 5, 5, 5]) = Some B
          \<and> matmul4 A B = identity4"
    by blast
  from t example_grid_coords shape1_zero example_grid_defined example_embedding_inverse e
  have "\<exists>G' A B. init_grids cached_build 2 2 [0, 0, 0, 0] example_grid = Some G'
          \<and> gcon_full cached_build G' face1 1 0 (replicate 4 [5, 5, 5, 5]) = Some A
          \<and> gcov_full cached_build G' face1 1 0 (replicate 4 [5, 5, 5, 5]) = Some B
          \<and> matmul4 A B = identity4"
    by blast
  with g b flat e example_grid_coords show ?thesis
    by (simp only: Grid_general_example simp_thms)
qed

subsection \<open>Independence of the third axis\<close>

lemma coord_third_axis:
  assumes "f 0 = x3f G 0" "c 0 = x3v G 0"
  shows "coord (G\<lparr>x3f := f, x3v := c\<rparr>) i j 0 loc X = coord G i j 0 loc X"
  using assms by (cases loc) (simp_all add: coord_def)

lemma cache_spec_third_axis:
  assumes "f 0 = x3f G 0" "c 0 = x3v G 0"
  shows "cache_spec cs (G\<lparr>x3f := f, x3v := c\<rparr>) X0 cl = cache_spec cs G X0 cl"
  by (cases cl) (simp_all add: coord_third_axis[where f = f and c = c and G = G, OF assms])

lemma peek_eq_fields:
  assumes "\<forall>c. peek G c = peek G' c"
  shows "gcon_direct G = gcon_direct G'" "gcov_direct G = gcov_direct G'"
    "gdet_direct G = gdet_direct G'" "conn_direct G = conn_direct G'"
proof -
  show "gcon_direct G = gcon_direct G'"
  proof
    fix x show "gcon_direct G x = gcon_direct G' x"
      using assms[rule_format, of "GCON (fst x) (fst (snd x)) (fst (snd (snd x))) (fst (snd (snd (snd x)))) (snd (snd (snd (snd x))))"]
      by simp
  qed
  show "gcov_direct G = gcov_direct G'"
  proof
    fix x show "gcov_direct G x = gcov_direct G' x"
      using assms[rule_format, of "GCOV (fst x) (fst (snd x)) (fst (snd (snd x))) (fst (snd (snd (snd x)))) (snd (snd (snd (snd x))))"]
      by simp
  qed
  show "gdet_direct G = gdet_direct G'"
  proof
    fix x show "gdet_direct G x = gdet_direct G' x"
      using assms[rule_format, of "GDET (fst x) (fst (snd x)) (snd (snd x))"]
      by simp
  qed
  show "conn_direct G = conn_direct G'"
  proof
    fix x show "conn_direct G x = conn_direct G' x"
      using assms[rule_format, of "CONN (fst x) (fst (snd x)) (fst (snd (snd x))) (fst (snd (snd (snd x)))) (snd (snd (snd (snd x))))"]
      by simp
  qed
qed

text \<open>
  C9. The metric accessors have no argument for the third axis. Two calls of \<open>lower\<close>,
  or of \<open>raise\<close>, that differ only in \<open>k\<close> return the same vector. The initialiser of
  the cached build reads the third-axis arrays at index 0 only: changing \<open>x3f\<close> and \<open>x3v\<close>
  anywhere else leaves the four cache views as they were.
\<close>

theorem third_axis_independence:
  "lower b G v w0 i j k loc = lower b G v w0 i j k' loc
   \<and> raise b G v w0 i j k loc = raise b G v w0 i j k' loc
   \<and> (coords G0 = Some cs \<and> shape1 X0
      \<and> (\<forall>i j loc. in_ext gn1 i \<longrightarrow> in_ext gn2 j \<longrightarrow> coord G0 i j 0 loc X0 \<noteq> None)
      \<and> f 0 = x3f G0 0 \<and> c 0 = x3v G0 0 \<longrightarrow>
       (\<exists>G1 G2. init_grids cached_build gn1 gn2 X0 G0 = Some G1
            \<and> init_grids cached_build gn1 gn2 X0 (G0\<lparr>x3f := f, x3v := c\<rparr>) = Some G2
            \<and> gcon_direct G2 = gcon_direct G1 \<and> gcov_direct G2 = gcov_direct G1
            \<and> gdet_direct G2 = gdet_direct G1 \<and> conn_direct G2 = conn_direct G1))"
proof (intro conjI impI)
  show "lower b G v w0 i j k loc = lower b G v w0 i j k' loc" by (simp add: lower_def)
  show "raise b G v w0 i j k loc = raise b G v w0 i j k' loc" by (simp add: raise_def)
next
  assume a: "coords G0 = Some cs \<and> shape1 X0
      \<and> (\<forall>i j loc. in_ext gn1 i \<longrightarrow> in_ext gn2 j \<longrightarrow> coord G0 i j 0 loc X0 \<noteq> None)
      \<and> f 0 = x3f G0 0 \<and> c 0 = x3v G0 0"
  then have cs: "coords G0 = Some cs" and X0: "shape1 X0"
    and co: "\<forall>i j loc. in_ext gn1 i \<longrightarrow> in_ext gn2 j \<longrightarrow> coord G0 i j 0 loc X0 \<noteq> None"
    and fc: "f 0 = x3f G0 0" "c 0 = x3v G0 0"
    by blast+
  let ?G0' = "G0\<lparr>x3f := f, x3v := c\<rparr>"
  have cs': "coords ?G0' = Some cs" using cs by simp
  have co': "\<forall>i j loc. in_ext gn1 i \<longrightarrow> in_ext gn2 j \<longrightarrow> coord ?G0' i j 0 loc X0 \<noteq> None"
    using co by (simp only: coord_third_axis[where f = f and c = c and G = G0, OF fc])
  have b: "\<not> FAST_CARTESIAN cached_build" "\<not> NO_CACHE cached_build"
    by (simp_all add: cached_build_def)
  from init_grids_cells[OF b cs X0 co] obtain G1 where G1:
    "init_grids cached_build gn1 gn2 X0 G0 = Some G1"
    "\<forall>c. peek G1 c = (if in_cache gn1 gn2 c then cache_spec cs G0 X0 c else None)"
    by blast
  from init_grids_cells[OF b cs' X0 co'] obtain G2 where G2:
    "init_grids cached_build gn1 gn2 X0 ?G0' = Some G2"
    "\<forall>c. peek G2 c = (if in_cache gn1 gn2 c then cache_spec cs ?G0' X0 c else None)"
    by blast
  have "\<forall>c. peek G2 c = peek G1 c"
    using G1(2) G2(2)
    by (simp add: cache_spec_third_axis[where f = f and c = c and G = G0, OF fc]
        del: cache_spec.simps peek.simps)
  from peek_eq_fields[OF this] G1(1) G2(1)
  show "\<exists>G1 G2. init_grids cached_build gn1 gn2 X0 G0 = Some G1
            \<and> init_grids cached_build gn1 gn2 X0 ?G0' = Some G2
            \<and> gcon_direct G2 = gcon_direct G1 \<and> gcov_direct G2 = gcov_direct G1
            \<and> gdet_direct G2 = gdet_direct G1 \<and> conn_direct G2 = conn_direct G1"
    by blast
qed

theorem third_axis_independence_witness:
  "lower flat_build (Grid_flat (unit_block 4)) [1, 2, 3, 4] [7, 7, 7, 7] 2 2 0 center
     = lower flat_build (Grid_flat (unit_block 4)) [1, 2, 3, 4] [7, 7, 7, 7] 2 2 3 center
   \<and> raise flat_build (Grid_flat (unit_block 4)) [1, 2, 3, 4] [7, 7, 7, 7] 2 2 0 center
     = raise flat_build (Grid_flat (unit_block 4)) [1, 2, 3, 4] [7, 7, 7, 7] 2 2 3 center
   \<and> coords example_grid = Some example_embedding \<and> shape1 [0, 0, 0, 0::real]
   \<and> ((unit_faces 2)(1 \<mapsto> 40)) 0 = x3f example_grid 0
   \<and> ((unit_centers 2)(1 \<mapsto> 50)) 0 = x3v example_grid 0
   \<and> (\<exists>G1 G2. init_grids cached_build 2 2 [0, 0, 0, 0] example_grid = Some G1
         \<and> init_grids cached_build 2 2 [0, 0, 0, 0]
              (example_grid\<lparr>x3f := (unit_faces 2)(1 \<mapsto> 40), x3v := (unit_centers 2)(1 \<mapsto> 50)\<rparr>)
             = Some G2
         \<and> gcon_direct G2 = gcon_direct G1 \<and> gcov_direct G2 = gcov_direct G1
         \<and> gdet_direct G2 = gdet_direct G1 \<and> conn_direct G2 = conn_direct G1)"
proof -
  have f: "((unit_faces 2)(1 \<mapsto> 40)) 0 = x3f example_grid 0"
    "((unit_centers 2)(1 \<mapsto> 50)) 0 = x3v example_grid 0"
    by (simp_all add: example_grid_def)
  note t = third_axis_independence[where b = flat_build and G = "Grid_flat (unit_block 4)" and v = "[1, 2, 3, 4]"
      and ?w0.0 = "[7, 7, 7, 7]" and i = 2 and j = 2 and k = 0 and k' = 3 and loc = center
      and ?G0.0 = example_grid and cs = example_embedding and ?X0.0 = "[0, 0, 0, 0]"
      and ?gn1.0 = 2 and ?gn2.0 = 2
      and f = "(unit_faces 2)(1 \<mapsto> 40)" and c = "(unit_centers 2)(1 \<mapsto> 50)"]
  from t example_grid_coords shape1_zero example_grid_defined f
  show ?thesis by blast
qed

subsection \<open>The embedding pointer\<close>

text \<open>
  C10. The constructor of the flat build leaves \<open>coords\<close> unset, and \<open>coord_embed\<close>
  dereferences \<open>coords\<close> on every call: on an object built by that constructor
  \<open>coord_embed\<close> has no defined result, for any arguments. On an object built by the
  general constructor it is the embedding's map applied to the native coordinate.
\<close>

theorem coord_embed_needs_coords:
  "coord_embed (Grid_flat pmb) i j k loc X = None
   \<and> (Grid_general b gn1 gn2 X0 cs pmb = Some G \<longrightarrow>
        coord_embed G i j k loc X = map_option (coord_to_embed cs) (coord G i j k loc X))"
proof (intro conjI impI)
  show "coord_embed (Grid_flat pmb) i j k loc X = None"
    by (simp add: coord_embed_def Grid_flat_def)
next
  assume "Grid_general b gn1 gn2 X0 cs pmb = Some G"
  then have "statics G = statics
       \<lparr>coords = Some cs,
        x1f = pcoord_x1f pmb, x2f = pcoord_x2f pmb, x3f = pcoord_x3f pmb,
        x1v = pcoord_x1v pmb, x2v = pcoord_x2v pmb, x3v = pcoord_x3v pmb,
        gcon_direct = Map.empty, gcov_direct = Map.empty,
        gdet_direct = Map.empty, conn_direct = Map.empty\<rparr>"
    unfolding Grid_general_def by (rule init_grids_statics)
  then have "coords G = Some cs" by (simp add: statics_def)
  then show "coord_embed G i j k loc X = map_option (coord_to_embed cs) (coord G i j k loc X)"
    by (cases "coord G i j k loc X") (simp_all add: coord_embed_def)
qed

theorem coord_embed_needs_coords_witness:
  "coord_embed (Grid_flat (unit_block 4)) 2 1 3 center [9, 9, 9, 9] = None
   \<and> (\<exists>G. Grid_general flat_build 4 4 [0, 0, 0, 0] example_embedding (unit_block 4) = Some G
        \<and> coord_embed G 2 1 3 center [9, 9, 9, 9] = Some [0, 4, 3 / 2, 7 / 2])"
proof -
  define G where "G = \<lparr>coords = Some example_embedding,
        x1f = unit_faces 4, x2f = unit_faces 4, x3f = unit_faces 4,
        x1v = unit_centers 4, x2v = unit_centers 4, x3v = unit_centers 4,
        gcon_direct = Map.empty, gcov_direct = Map.empty,
        gdet_direct = Map.empty, conn_direct = Map.empty\<rparr>"
  have g: "Grid_general flat_build 4 4 [0, 0, 0, 0] example_embedding (unit_block 4) = Some G"
    by (simp add: Grid_general_def init_grids_def flat_build_def unit_block_def G_def)
  have c: "coord G 2 1 3 center [9, 9, 9, 9] = Some [0, 5 / 2, 3 / 2, 7 / 2]"
    by (simp add: G_def coord_def unit_centers_def)
  from coord_embed_needs_coords[of "unit_block 4" 2 1 3 center "[9, 9, 9, 9]" flat_build 4 4 "[0, 0, 0, 0]"
      example_embedding G] g c
  have "coord_embed (Grid_flat (unit_block 4)) 2 1 3 center [9, 9, 9, 9] = None"
    "coord_embed G 2 1 3 center [9, 9, 9, 9] = Some [0, 4, 3 / 2, 7 / 2]"
    by (simp_all add: example_embedding_def)
  with g show ?thesis by blast
qed

subsection \<open>The direct build\<close>

text \<open>
  C6. The spec has every accessor call of the direct build forward to the embedding,
  and the source documents \<^verbatim>\<open>NO_CACHE\<close> as "just call into CoordinateEmbedding directly".
  The accessors of the \<^verbatim>\<open>#elif NO_CACHE\<close> branch are nevertheless the lookups of the
  cached branch, on members that this build neither declares nor fills: each accessor
  is the lookup in the view of the same name; and an object built by the general
  constructor in the direct build has the embedding pointer set, while its four
  accessors have no defined result at any index, whatever the embedding is.
\<close>

theorem direct_accessors_read_cache_members:
  "gcov direct_build G loc i j mu nu = gcov_direct G (loc, i, j, mu, nu)
   \<and> gcon direct_build G loc i j mu nu = gcon_direct G (loc, i, j, mu, nu)
   \<and> gdet direct_build G loc i j = gdet_direct G (loc, i, j)
   \<and> conn direct_build G i j mu nu lam = conn_direct G (i, j, mu, nu, lam)
   \<and> (\<exists>Gd. Grid_general direct_build gn1 gn2 X0 cs pmb = Some Gd
         \<and> coords Gd = Some cs
         \<and> gcov direct_build Gd loc i j mu nu = None
         \<and> gcon direct_build Gd loc i j mu nu = None
         \<and> gdet direct_build Gd loc i j = None
         \<and> conn direct_build Gd i j mu nu lam = None)"
  by (simp add: gcov_def gcon_def gdet_def conn_def direct_build_def Grid_general_def init_grids_def)

text \<open>
  C8. The spec has the direct and the cached build return the same values. On the
  example block, whose metric does not depend on the third axis, the cached build
  returns 2 for \<open>gcov(face1, 1, 0, 2, 2)\<close>, the embedding's value there, and the direct
  build has no defined result.
\<close>

theorem direct_and_cached_disagree:
  "\<exists>Gc Gd. Grid_general cached_build 2 2 [0, 0, 0, 0] example_embedding (unit_block 2) = Some Gc
       \<and> Grid_general direct_build 2 2 [0, 0, 0, 0] example_embedding (unit_block 2) = Some Gd
       \<and> gcov cached_build Gc face1 1 0 2 2 = Some 2
       \<and> gcov direct_build Gd face1 1 0 2 2 = None"
proof -
  have b: "\<not> FAST_CARTESIAN cached_build" "\<not> NO_CACHE cached_build"
    by (simp_all add: cached_build_def)
  from init_grids_cells[OF b example_grid_coords shape1_zero example_grid_defined]
  obtain Gc where Gc: "init_grids cached_build 2 2 [0, 0, 0, 0] example_grid = Some Gc"
    "\<forall>c. peek Gc c = (if in_cache 2 2 c then cache_spec example_embedding example_grid [0, 0, 0, 0] c else None)"
    by blast
  have X: "coord example_grid 1 0 0 face1 [0, 0, 0, 0] = Some [0, 1, 1 / 2, 1 / 2]"
    by (simp add: example_grid_def coord_def unit_faces_def unit_centers_def)
  have "gcov cached_build Gc face1 1 0 2 2 = Some 2"
    using Gc(2)[rule_format, of "GCOV face1 1 0 2 2"] X
    by (simp add: gcov_def cached_build_def in_ext_def in_dim_def NDIM_def
        example_embedding_def diag4_def)
  moreover have "init_grids direct_build 2 2 [0, 0, 0, 0] example_grid = Some example_grid"
    by (simp add: init_grids_def direct_build_def)
  moreover have "gcov direct_build example_grid face1 1 0 2 2 = None"
    by (simp add: gcov_def direct_build_def example_grid_def)
  ultimately show ?thesis
    using Gc(1) by (simp only: Grid_general_example) blast
qed

end
